theory Spec2Isabelle
  imports Complex_Main
begin

section \<open>Strings\<close>

text \<open>
  A Python \<open>str\<close> is a sequence of code points. The development covers the code points
  below 256: one \<^typ>\<open>char\<close> is one code point, so \<^const>\<open>length\<close> is Python's \<open>len\<close>.
  The character classes below are Python's on that range.
\<close>

definition code :: "char \<Rightarrow> nat" where
  "code c = of_char c"

text \<open>\<open>c.isdigit()\<close>: the ASCII digits and the superscripts two, three and one.\<close>

definition isdigit :: "char \<Rightarrow> bool" where
  "isdigit c = ((48 \<le> code c \<and> code c \<le> 57) \<or> code c = 178 \<or> code c = 179 \<or> code c = 185)"

text \<open>The class \<open>\d\<close> of \<open>re\<close> on a \<open>str\<close> pattern: the decimal digits only.\<close>

definition re_digit :: "char \<Rightarrow> bool" where
  "re_digit c = (48 \<le> code c \<and> code c \<le> 57)"

text \<open>Whitespace, for \<open>str.strip()\<close> and for \<open>\s\<close>.\<close>

definition isspace :: "char \<Rightarrow> bool" where
  "isspace c = ((9 \<le> code c \<and> code c \<le> 13) \<or> (28 \<le> code c \<and> code c \<le> 32)
      \<or> code c = 133 \<or> code c = 160)"

text \<open>The class \<open>[A-Za-z]\<close>.\<close>

definition re_alpha :: "char \<Rightarrow> bool" where
  "re_alpha c = ((65 \<le> code c \<and> code c \<le> 90) \<or> (97 \<le> code c \<and> code c \<le> 122))"

text \<open>The class \<open>.\<close>: everything but the newline.\<close>

definition re_dot :: "char \<Rightarrow> bool" where
  "re_dot c = (code c \<noteq> 10)"

definition lower_char :: "char \<Rightarrow> char" where
  "lower_char c =
     (if (65 \<le> code c \<and> code c \<le> 90) \<or> (192 \<le> code c \<and> code c \<le> 214)
         \<or> (216 \<le> code c \<and> code c \<le> 222)
      then char_of (code c + 32) else c)"

text \<open>\<open>s.lower()\<close>.\<close>

definition py_lower :: "string \<Rightarrow> string" where
  "py_lower s = map lower_char s"

definition upper_char :: "char \<Rightarrow> char" where
  "upper_char c = (if 97 \<le> code c \<and> code c \<le> 122 then char_of (code c - 32) else c)"

text \<open>
  \<open>s.upper()\<close> on the strings the program uppercases, which are two letters of
  \<open>[A-Za-z]\<close>.
\<close>

definition py_upper :: "string \<Rightarrow> string" where
  "py_upper s = map upper_char s"

text \<open>\<open>s.strip()\<close>.\<close>

definition py_strip :: "string \<Rightarrow> string" where
  "py_strip s = rev (dropWhile isspace (rev (dropWhile isspace s)))"

text \<open>\<open>sub in s\<close> for strings.\<close>

fun py_in :: "string \<Rightarrow> string \<Rightarrow> bool" where
  "py_in sub [] = (sub = [])"
| "py_in sub (c # cs) = (take (length sub) (c # cs) = sub \<or> py_in sub cs)"

text \<open>\<open>any(indicator in s for indicator in indicators)\<close>.\<close>

definition any_in :: "string list \<Rightarrow> string \<Rightarrow> bool" where
  "any_in indicators s = list_ex (\<lambda>indicator. py_in indicator s) indicators"

text \<open>\<open>s.split(',')\<close>: the segments between the commas, always at least one.\<close>

fun split_comma :: "string \<Rightarrow> string list" where
  "split_comma [] = [[]]"
| "split_comma (c # cs) =
     (if c = CHR '','' then [] # split_comma cs
      else (case split_comma cs of p # ps \<Rightarrow> (c # p) # ps | [] \<Rightarrow> [[c]]))"

section \<open>Regular expressions\<close>

text \<open>
  A pattern is a matcher: applied to the text at some position it returns every way to
  match there, as pairs of the matched text and the rest, in the order in which the
  backtracking engine of \<open>re\<close> tries them. The first complete way is the match of
  \<open>re.match\<close>.
\<close>

type_synonym matcher = "string \<Rightarrow> (string \<times> string) list"

text \<open>One character of a class.\<close>

definition cls :: "(char \<Rightarrow> bool) \<Rightarrow> matcher" where
  "cls p s = (case s of c # cs \<Rightarrow> if p c then [([c], cs)] else [] | [] \<Rightarrow> [])"

text \<open>Concatenation of two patterns.\<close>

definition rseq :: "matcher \<Rightarrow> matcher \<Rightarrow> matcher" where
  "rseq m1 m2 s = concat (map (\<lambda>(a, r). map (\<lambda>(b, r'). (a @ b, r')) (m2 r)) (m1 s))"

text \<open>\<open>m?\<close>, greedy: with \<open>m\<close> first, then without.\<close>

definition ropt :: "matcher \<Rightarrow> matcher" where
  "ropt m s = m s @ [([], s)]"

text \<open>\<open>m{n}\<close>.\<close>

fun rrep :: "nat \<Rightarrow> matcher \<Rightarrow> matcher" where
  "rrep 0 m = (\<lambda>s. [([], s)])"
| "rrep (Suc n) m = rseq m (rrep n m)"

text \<open>\<open>[p]+\<close>, greedy: the longest run first.\<close>

fun rplus :: "(char \<Rightarrow> bool) \<Rightarrow> matcher" where
  "rplus p [] = []"
| "rplus p (c # cs) =
     (if p c then map (\<lambda>(a, r). (c # a, r)) (rplus p cs) @ [([c], cs)] else [])"

text \<open>\<open>[p]+?\<close>, lazy: the shortest run first.\<close>

fun rplus_lazy :: "(char \<Rightarrow> bool) \<Rightarrow> matcher" where
  "rplus_lazy p [] = []"
| "rplus_lazy p (c # cs) =
     (if p c then ([c], cs) # map (\<lambda>(a, r). (c # a, r)) (rplus_lazy p cs) else [])"

text \<open>The first way to match, if there is one.\<close>

definition first_match :: "'a list \<Rightarrow> 'a option" where
  "first_match ms = (case ms of [] \<Rightarrow> None | m # _ \<Rightarrow> Some m)"

text \<open>
  \<open>re.match(r'([A-Za-z]{2})\s+(\d{5})', s)\<close>: the groups 1 and 2 of the match at the
  start of \<open>s\<close>.
\<close>

definition match_state_zip :: "string \<Rightarrow> (string \<times> string) option" where
  "match_state_zip s = first_match (
     concat (map (\<lambda>(g1, r1).
     concat (map (\<lambda>(_, r2).
             map (\<lambda>(g2, _). (g1, g2))
       (rrep 5 (cls re_digit) r2))
       (rplus isspace r1)))
       (rrep 2 (cls re_alpha) s)))"

text \<open>
  \<open>re.match(r'(.+?),?\s+([A-Za-z]{2})\s+(\d{5})', s)\<close>: the groups 1, 2 and 3 of the
  match at the start of \<open>s\<close>.
\<close>

definition match_city_state_zip :: "string \<Rightarrow> (string \<times> string \<times> string) option" where
  "match_city_state_zip s = first_match (
     concat (map (\<lambda>(g1, r1).
     concat (map (\<lambda>(_, r2).
     concat (map (\<lambda>(_, r3).
     concat (map (\<lambda>(g2, r4).
     concat (map (\<lambda>(_, r5).
             map (\<lambda>(g3, _). (g1, g2, g3))
       (rrep 5 (cls re_digit) r5))
       (rplus isspace r4)))
       (rrep 2 (cls re_alpha) r3)))
       (rplus isspace r2)))
       (ropt (cls (\<lambda>c. c = CHR '','')) r1)))
       (rplus_lazy re_dot s)))"

text \<open>
  The pattern \<open>\d{3}[-.]?\d{3}[-.]?\d{4}\<close> at the start of \<open>s\<close>: the matched text.
\<close>

definition re_sep :: "char \<Rightarrow> bool" where
  "re_sep c = (c = CHR ''-'' \<or> c = CHR ''.'')"

definition match_phone :: "string \<Rightarrow> string option" where
  "match_phone s = first_match (map fst (
     rseq (rrep 3 (cls re_digit))
    (rseq (ropt (cls re_sep))
    (rseq (rrep 3 (cls re_digit))
    (rseq (ropt (cls re_sep))
          (rrep 4 (cls re_digit))))) s))"

text \<open>\<open>re.search\<close> with that pattern: the leftmost match.\<close>

fun search_phone :: "string \<Rightarrow> string option" where
  "search_phone [] = match_phone []"
| "search_phone (c # cs) =
     (case match_phone (c # cs) of Some m \<Rightarrow> Some m | None \<Rightarrow> search_phone cs)"

section \<open>Address parsing\<close>

record components =
  street :: string
  city :: string
  state :: string
  zip :: string

text \<open>\<open>parse_address\<close> of \<open>final_working_script.py\<close>.\<close>

definition parse_secondary :: "string list \<Rightarrow> components option" where
  "parse_secondary parts =
     (if length parts \<ge> 2 then
        (case match_city_state_zip (py_strip (parts ! 1)) of
           Some (g1, g2, g3) \<Rightarrow>
             Some \<lparr>street = py_strip (parts ! 0), city = py_strip g1,
                   state = py_upper g2, zip = g3\<rparr>
         | None \<Rightarrow> None)
      else None)"

definition parse_address :: "string \<Rightarrow> components option" where
  "parse_address full_address =
     (let parts = split_comma full_address in
      if length parts \<ge> 3 then
        (case match_state_zip (py_strip (parts ! 2)) of
           Some (g1, g2) \<Rightarrow>
             Some \<lparr>street = py_strip (parts ! 0), city = py_strip (parts ! 1),
                   state = py_upper g1, zip = g2\<rparr>
         | None \<Rightarrow> parse_secondary parts)
      else parse_secondary parts)"

text \<open>
  The reference algorithm of the specification, on the trimmed segments: three or more
  segments are matched by the primary pattern only, exactly two by the combined one, and
  anything else fails.
\<close>

definition spec_primary :: "string \<Rightarrow> string \<Rightarrow> string \<Rightarrow> components option" where
  "spec_primary seg0 seg1 seg2 =
     (case match_state_zip seg2 of
        Some (g1, g2) \<Rightarrow> Some \<lparr>street = seg0, city = seg1, state = py_upper g1, zip = g2\<rparr>
      | None \<Rightarrow> None)"

definition spec_secondary :: "string \<Rightarrow> string \<Rightarrow> components option" where
  "spec_secondary seg0 seg1 =
     (case match_city_state_zip seg1 of
        Some (g1, g2, g3) \<Rightarrow>
          Some \<lparr>street = seg0, city = py_strip g1, state = py_upper g2, zip = g3\<rparr>
      | None \<Rightarrow> None)"

definition spec_parse :: "string \<Rightarrow> components option" where
  "spec_parse raw =
     (let segs = map py_strip (split_comma raw) in
      if length segs \<ge> 3 then spec_primary (segs ! 0) (segs ! 1) (segs ! 2)
      else if length segs = 2 then spec_secondary (segs ! 0) (segs ! 1)
      else None)"

section \<open>Board items\<close>

text \<open>
  An item of the board: its name (the empty string when the key is absent) and the texts
  of its columns (\<open>None\<close> for a column without text).
\<close>

record column =
  col_text :: "string option"

record item =
  item_name :: string
  column_values :: "column list"

definition address_indicators :: "string list" where
  "address_indicators =
     [''st'', ''rd'', ''ave'', ''blvd'', ''ln'', ''dr'', ''way'', ''ct'', ''pl'']"

text \<open>The loop of \<open>extract_address\<close> over the columns: the first text that qualifies.\<close>

fun column_address :: "column list \<Rightarrow> string option" where
  "column_address [] = None"
| "column_address (c # cs) =
     (case col_text c of
        Some t \<Rightarrow>
          if t \<noteq> [] \<and> any_in address_indicators (py_lower t) then Some t
          else column_address cs
      | None \<Rightarrow> column_address cs)"

definition extract_address :: "item \<Rightarrow> string option" where
  "extract_address it =
     (if item_name it = ''New address'' then None
      else if any_in address_indicators (py_lower (item_name it)) then Some (item_name it)
      else (case column_address (column_values it) of
              Some t \<Rightarrow> Some t
            | None \<Rightarrow> if item_name it \<noteq> [] then Some (item_name it) else None))"

section \<open>Response payloads\<close>

text \<open>
  A decoded JSON value. A mapping keeps the order of its entries; \<open>JNull\<close> is Python's
  \<open>None\<close>.
\<close>

datatype json =
    JNull
  | JBool bool
  | JNum rat
  | JStr string
  | JList "json list"
  | JDict "(string \<times> json) list"

text \<open>The truth value of an object in a condition.\<close>

fun truthy :: "json \<Rightarrow> bool" where
  "truthy JNull = False"
| "truthy (JBool b) = b"
| "truthy (JNum q) = (q \<noteq> 0)"
| "truthy (JStr s) = (s \<noteq> [])"
| "truthy (JList xs) = (xs \<noteq> [])"
| "truthy (JDict kvs) = (kvs \<noteq> [])"

text \<open>\<open>isinstance(value, (dict, list))\<close>.\<close>

fun is_container :: "json \<Rightarrow> bool" where
  "is_container (JList xs) = True"
| "is_container (JDict kvs) = True"
| "is_container v = False"

text \<open>Whether \<open>len(v)\<close> is defined: on a string, a list and a mapping.\<close>

fun has_len :: "json \<Rightarrow> bool" where
  "has_len (JStr s) = True"
| "has_len (JList xs) = True"
| "has_len (JDict kvs) = True"
| "has_len v = False"

text \<open>
  \<open>d.get(key, default)\<close> on the entries of a mapping, whose keys are distinct.
\<close>

definition dict_get :: "(string \<times> json) list \<Rightarrow> string \<Rightarrow> json \<Rightarrow> json" where
  "dict_get kvs key dflt = (case map_of kvs key of Some v \<Rightarrow> v | None \<Rightarrow> dflt)"

text \<open>
  \<open>str(value)\<close>, and the value in an f-string: a string is itself; the text of any other
  object is given by \<open>repr\<close>, a parameter of the development.
\<close>

definition py_str :: "(json \<Rightarrow> string) \<Rightarrow> json \<Rightarrow> string" where
  "py_str repr v = (case v of JStr s \<Rightarrow> s | _ \<Rightarrow> repr v)"

section \<open>Fuzzy field extraction\<close>

definition phone_indicators :: "string list" where
  "phone_indicators = [''phone'', ''tel'', ''mobile'', ''landline'', ''number'', ''linktext'']"

definition email_indicators :: "string list" where
  "email_indicators = [''email'', ''mail'', ''linktext'']"

text \<open>
  \<open>search_recursive\<close> of \<open>find_phone_numbers_in_response_comprehensive\<close>. The result is
  what the call appends to \<open>phones\<close>, in order; the two loops are the functions on the
  entries of a mapping and on the elements of a sequence.
\<close>

fun phone_search_recursive :: "json \<Rightarrow> string list"
  and phone_search_items :: "(string \<times> json) list \<Rightarrow> string list"
  and phone_search_elems :: "json list \<Rightarrow> string list" where
  "phone_search_recursive (JDict kvs) = phone_search_items kvs"
| "phone_search_recursive (JList xs) = phone_search_elems xs"
| "phone_search_recursive JNull = []"
| "phone_search_recursive (JBool b) = []"
| "phone_search_recursive (JNum q) = []"
| "phone_search_recursive (JStr s) = []"
| "phone_search_items [] = []"
| "phone_search_items ((key, value) # kvs) =
     (if any_in phone_indicators (py_lower key) then
        (case value of
           JStr s \<Rightarrow>
             if list_ex isdigit s then
               (case search_phone s of Some m \<Rightarrow> [m] | None \<Rightarrow> [])
             else []
         | _ \<Rightarrow> if is_container value then phone_search_recursive value else [])
      else if is_container value then phone_search_recursive value
      else [])
     @ phone_search_items kvs"
| "phone_search_elems [] = []"
| "phone_search_elems (x # xs) = phone_search_recursive x @ phone_search_elems xs"

text \<open>\<open>search_recursive\<close> of \<open>find_emails_in_response_comprehensive\<close>.\<close>

fun email_search_recursive :: "json \<Rightarrow> string list"
  and email_search_items :: "(string \<times> json) list \<Rightarrow> string list"
  and email_search_elems :: "json list \<Rightarrow> string list" where
  "email_search_recursive (JDict kvs) = email_search_items kvs"
| "email_search_recursive (JList xs) = email_search_elems xs"
| "email_search_recursive JNull = []"
| "email_search_recursive (JBool b) = []"
| "email_search_recursive (JNum q) = []"
| "email_search_recursive (JStr s) = []"
| "email_search_items [] = []"
| "email_search_items ((key, value) # kvs) =
     (if any_in email_indicators (py_lower key) then
        (case value of
           JStr s \<Rightarrow> if CHR ''@'' \<in> set s \<and> CHR ''.'' \<in> set s then [s] else []
         | _ \<Rightarrow> if is_container value then email_search_recursive value else [])
      else if is_container value then email_search_recursive value
      else [])
     @ email_search_items kvs"
| "email_search_elems [] = []"
| "email_search_elems (x # xs) = email_search_recursive x @ email_search_elems xs"

text \<open>
  The number of calls of \<open>search_recursive\<close> that one call makes, itself included: the
  same traversal, counting instead of collecting.
\<close>

fun phone_search_calls :: "json \<Rightarrow> nat"
  and phone_search_items_calls :: "(string \<times> json) list \<Rightarrow> nat"
  and phone_search_elems_calls :: "json list \<Rightarrow> nat" where
  "phone_search_calls (JDict kvs) = 1 + phone_search_items_calls kvs"
| "phone_search_calls (JList xs) = 1 + phone_search_elems_calls xs"
| "phone_search_calls JNull = 1"
| "phone_search_calls (JBool b) = 1"
| "phone_search_calls (JNum q) = 1"
| "phone_search_calls (JStr s) = 1"
| "phone_search_items_calls [] = 0"
| "phone_search_items_calls ((key, value) # kvs) =
     (if any_in phone_indicators (py_lower key) then
        (case value of
           JStr s \<Rightarrow> 0
         | _ \<Rightarrow> if is_container value then phone_search_calls value else 0)
      else if is_container value then phone_search_calls value
      else 0)
     + phone_search_items_calls kvs"
| "phone_search_elems_calls [] = 0"
| "phone_search_elems_calls (x # xs) = phone_search_calls x + phone_search_elems_calls xs"

fun email_search_calls :: "json \<Rightarrow> nat"
  and email_search_items_calls :: "(string \<times> json) list \<Rightarrow> nat"
  and email_search_elems_calls :: "json list \<Rightarrow> nat" where
  "email_search_calls (JDict kvs) = 1 + email_search_items_calls kvs"
| "email_search_calls (JList xs) = 1 + email_search_elems_calls xs"
| "email_search_calls JNull = 1"
| "email_search_calls (JBool b) = 1"
| "email_search_calls (JNum q) = 1"
| "email_search_calls (JStr s) = 1"
| "email_search_items_calls [] = 0"
| "email_search_items_calls ((key, value) # kvs) =
     (if any_in email_indicators (py_lower key) then
        (case value of
           JStr s \<Rightarrow> 0
         | _ \<Rightarrow> if is_container value then email_search_calls value else 0)
      else if is_container value then email_search_calls value
      else 0)
     + email_search_items_calls kvs"
| "email_search_elems_calls [] = 0"
| "email_search_elems_calls (x # xs) = email_search_calls x + email_search_elems_calls xs"

section \<open>Contact normalisation\<close>

text \<open>
  A Python \<open>set\<close> has no order of its own. Where the program iterates over one or turns
  one into a list, the development takes the order of first occurrence
  (\<^const>\<open>remdups\<close> keeps one copy of each element); every statement below is about the
  set of the result or about its emptiness, which no order changes.
\<close>

text \<open>\<open>f"({digits[:3]}) {digits[3:6]}-{digits[6:]}"\<close>.\<close>

definition format_phone10 :: "string \<Rightarrow> string" where
  "format_phone10 digits =
     ''('' @ take 3 digits @ '') '' @ take 3 (drop 3 digits) @ ''-'' @ drop 6 digits"

text \<open>\<open>f"({digits[1:4]}) {digits[4:7]}-{digits[7:]}"\<close>.\<close>

definition format_phone11 :: "string \<Rightarrow> string" where
  "format_phone11 digits =
     ''('' @ take 3 (drop 1 digits) @ '') '' @ take 3 (drop 4 digits) @ ''-'' @ drop 7 digits"

text \<open>
  One round of the cleaning loop, which \<open>find_phone_numbers_in_response_comprehensive\<close>
  and \<open>extract_phones_from_data\<close> share: what it appends to \<open>cleaned_phones\<close>.
\<close>

definition clean_phone :: "string \<Rightarrow> string list" where
  "clean_phone phone =
     (let digits = filter isdigit phone in
      if length digits = 10 then [format_phone10 digits]
      else if length digits = 11 \<and> take 1 digits = ''1'' then [format_phone11 digits]
      else if length digits \<ge> 10 then [phone]
      else [])"

definition clean_phones :: "string list \<Rightarrow> string list" where
  "clean_phones raw = concat (map clean_phone raw)"

text \<open>
  The cleaning of \<open>find_phone_numbers_in_response_comprehensive\<close>: the loop runs over
  \<open>set(phones)\<close>.
\<close>

definition normalize_phones_comprehensive :: "string list \<Rightarrow> string list" where
  "normalize_phones_comprehensive raw = clean_phones (remdups raw)"

text \<open>
  The cleaning of \<open>extract_phones_from_data\<close>: the loop runs over \<open>phones\<close> and the result
  is \<open>list(set(cleaned_phones))\<close>.
\<close>

definition normalize_phones_extract :: "string list \<Rightarrow> string list" where
  "normalize_phones_extract raw = remdups (clean_phones raw)"

text \<open>One round of the cleaning loop of \<open>find_emails_in_response_comprehensive\<close>.\<close>

definition clean_email_comprehensive :: "string \<Rightarrow> string list" where
  "clean_email_comprehensive email0 =
     (let email = py_strip email0 in
      if CHR ''@'' \<in> set email \<and> CHR ''.'' \<in> set email \<and> length email > 5 then [email]
      else [])"

definition normalize_emails_comprehensive :: "string list \<Rightarrow> string list" where
  "normalize_emails_comprehensive raw = concat (map clean_email_comprehensive (remdups raw))"

text \<open>One round of the cleaning loop of \<open>extract_emails_from_data\<close>.\<close>

definition clean_email_extract :: "string \<Rightarrow> string list" where
  "clean_email_extract email0 =
     (let email = py_strip email0 in
      if CHR ''@'' \<in> set email \<and> CHR ''.'' \<in> set email then [email] else [])"

definition normalize_emails_extract :: "string list \<Rightarrow> string list" where
  "normalize_emails_extract raw = remdups (concat (map clean_email_extract raw))"

text \<open>
  The normaliser of the specification, in its words: the digits of an entry decide; ten
  digits give the canonical form, eleven with a leading 1 give it without the 1, ten or
  more of any other shape keep the entry, fewer discard it.
\<close>

fun canonical_phone :: "string \<Rightarrow> string" where
  "canonical_phone [a, b, c, d, e, f, g, h, i, j] =
     [CHR ''('', a, b, c, CHR '')'', CHR '' '', d, e, f, CHR ''-'', g, h, i, j]"
| "canonical_phone ds = ds"

definition spec_normalize_phone :: "string \<Rightarrow> string option" where
  "spec_normalize_phone p =
     (let ds = filter isdigit p in
      if length ds = 10 then Some (canonical_phone ds)
      else if length ds = 11 \<and> hd ds = CHR ''1'' then Some (canonical_phone (tl ds))
      else if length ds \<ge> 10 then Some p
      else None)"

definition spec_normalizePhones :: "string list \<Rightarrow> string set" where
  "spec_normalizePhones raw = {y. \<exists>p \<in> set raw. spec_normalize_phone p = Some y}"

definition spec_accept_email :: "string \<Rightarrow> bool" where
  "spec_accept_email e = (CHR ''@'' \<in> set e \<and> CHR ''.'' \<in> set e \<and> length e > 5)"

definition spec_normalizeEmails :: "string list \<Rightarrow> string set" where
  "spec_normalizeEmails raw = {e. \<exists>r \<in> set raw. e = py_strip r \<and> spec_accept_email e}"

section \<open>Extraction from a payload\<close>

definition find_phone_numbers_in_response_comprehensive :: "json \<Rightarrow> string list" where
  "find_phone_numbers_in_response_comprehensive data =
     normalize_phones_comprehensive (phone_search_recursive data)"

definition find_emails_in_response_comprehensive :: "json \<Rightarrow> string list" where
  "find_emails_in_response_comprehensive data =
     normalize_emails_comprehensive (email_search_recursive data)"

text \<open>\<open>find_phones_recursive\<close> of \<open>extract_phones_from_data\<close>.\<close>

fun find_phones_recursive :: "(json \<Rightarrow> string) \<Rightarrow> json \<Rightarrow> string list"
  and find_phones_items :: "(json \<Rightarrow> string) \<Rightarrow> (string \<times> json) list \<Rightarrow> string list"
  and find_phones_elems :: "(json \<Rightarrow> string) \<Rightarrow> json list \<Rightarrow> string list" where
  "find_phones_recursive repr (JDict kvs) = find_phones_items repr kvs"
| "find_phones_recursive repr (JList xs) = find_phones_elems repr xs"
| "find_phones_recursive repr JNull = []"
| "find_phones_recursive repr (JBool b) = []"
| "find_phones_recursive repr (JNum q) = []"
| "find_phones_recursive repr (JStr s) = []"
| "find_phones_items repr [] = []"
| "find_phones_items repr ((key, value) # kvs) =
     (if py_in ''phone'' (py_lower key) \<and> truthy value then [py_str repr value]
      else if is_container value then find_phones_recursive repr value
      else [])
     @ find_phones_items repr kvs"
| "find_phones_elems repr [] = []"
| "find_phones_elems repr (x # xs) = find_phones_recursive repr x @ find_phones_elems repr xs"

definition extract_phones_from_data :: "(json \<Rightarrow> string) \<Rightarrow> json \<Rightarrow> string list" where
  "extract_phones_from_data repr data =
     normalize_phones_extract (find_phones_recursive repr data)"

text \<open>\<open>find_emails_recursive\<close> of \<open>extract_emails_from_data\<close>.\<close>

fun find_emails_recursive :: "(json \<Rightarrow> string) \<Rightarrow> json \<Rightarrow> string list"
  and find_emails_items :: "(json \<Rightarrow> string) \<Rightarrow> (string \<times> json) list \<Rightarrow> string list"
  and find_emails_elems :: "(json \<Rightarrow> string) \<Rightarrow> json list \<Rightarrow> string list" where
  "find_emails_recursive repr (JDict kvs) = find_emails_items repr kvs"
| "find_emails_recursive repr (JList xs) = find_emails_elems repr xs"
| "find_emails_recursive repr JNull = []"
| "find_emails_recursive repr (JBool b) = []"
| "find_emails_recursive repr (JNum q) = []"
| "find_emails_recursive repr (JStr s) = []"
| "find_emails_items repr [] = []"
| "find_emails_items repr ((key, value) # kvs) =
     (if py_in ''email'' (py_lower key) \<and> truthy value then [py_str repr value]
      else if is_container value then find_emails_recursive repr value
      else [])
     @ find_emails_items repr kvs"
| "find_emails_elems repr [] = []"
| "find_emails_elems repr (x # xs) = find_emails_recursive repr x @ find_emails_elems repr xs"

definition extract_emails_from_data :: "(json \<Rightarrow> string) \<Rightarrow> json \<Rightarrow> string list" where
  "extract_emails_from_data repr data =
     normalize_emails_extract (find_emails_recursive repr data)"

section \<open>The boundary\<close>

text \<open>
  A request is its method, its URL, the \<open>Purchase\<close> parameter of its query string and its
  JSON body if it has one; the headers, the same on every request to the provider, are
  left out. A response is either no response at all (\<open>requests\<close> raises:
  a timeout, a refused connection) or a status code with the result of
  \<open>response.json()\<close>, \<open>None\<close> when decoding raises. The provider is a function of its
  own state, so that the same request may be answered differently later; every request
  sent is logged.
\<close>

datatype http_method = GET | POST

record request =
  meth :: http_method
  url :: string
  purchase :: nat
  body :: "json option"

datatype response = Failed | Http nat "json option"

type_synonym 'w server = "'w \<Rightarrow> request \<Rightarrow> response \<times> 'w"

record 'w net =
  world :: 'w
  sent :: "request list"

definition http :: "'w server \<Rightarrow> request \<Rightarrow> 'w net \<Rightarrow> response \<times> 'w net" where
  "http srv rq s =
     (let (r, w) = srv (world s) rq in (r, \<lparr>world = w, sent = sent s @ [rq]\<rparr>))"

text \<open>
  \<open>response.json()\<close> under \<open>if response.status_code == 200\<close>, inside a \<open>try\<close>: the
  decoded payload, or nothing when the request raised, the status is another one or the
  decoding raised.
\<close>

definition ok_json :: "response \<Rightarrow> json option" where
  "ok_json r = (case r of Failed \<Rightarrow> None | Http c js \<Rightarrow> if c = 200 then js else None)"

text \<open>
  The built-in conversions the program applies to payload values, parameters of the
  development: \<open>repr\<close> gives the text of an object that is not a string, \<open>float_num\<close>
  and \<open>float_str\<close> are \<open>float\<close> on a number and on a string, \<open>None\<close> where it
  raises.
\<close>

record builtins =
  repr :: "json \<Rightarrow> string"
  float_num :: "rat \<Rightarrow> rat option"
  float_str :: "string \<Rightarrow> rat option"

text \<open>\<open>float(v)\<close>: a \<open>TypeError\<close> on \<open>None\<close>, a list or a mapping.\<close>

definition py_float :: "builtins \<Rightarrow> json \<Rightarrow> rat option" where
  "py_float py v =
     (case v of
        JNum q \<Rightarrow> float_num py q
      | JBool b \<Rightarrow> Some (if b then 1 else 0)
      | JStr s \<Rightarrow> float_str py s
      | _ \<Rightarrow> None)"

text \<open>Whether \<open>v > 0\<close> can be evaluated: a \<open>TypeError\<close> on anything but a number.\<close>

definition comparable :: "json \<Rightarrow> bool" where
  "comparable v = (case v of JNum q \<Rightarrow> True | JBool b \<Rightarrow> True | _ \<Rightarrow> False)"

type_synonym contacts = "string list \<times> rat"

section \<open>Phone lookup\<close>

definition persons_url :: "builtins \<Rightarrow> json \<Rightarrow> string" where
  "persons_url py person_key =
     ''https://api.propertyradar.com/v1/persons/'' @ py_str (repr py) person_key"

text \<open>
  \<open>get_cached_phone_data\<close>. Every exception inside its \<open>try\<close> ends in the final
  \<open>return [], 0\<close>: a payload that is no mapping (\<open>data.get\<close>), a cost that \<open>float\<close>
  rejects, and whatever the diagnostic prints of the branch without phones raise.
\<close>

definition get_cached_phone_data ::
  "builtins \<Rightarrow> 'w server \<Rightarrow> string \<Rightarrow> 'w net \<Rightarrow> contacts \<times> 'w net" where
  "get_cached_phone_data py srv u s =
     (let (r, s1) = http srv \<lparr>meth = POST, url = u, purchase = 0, body = None\<rparr> s in
      (case ok_json r of
         Some (JDict kvs) \<Rightarrow>
           (let total_cost = dict_get kvs ''totalCost'' (JNum 0);
                phones = find_phone_numbers_in_response_comprehensive (JDict kvs) in
            if phones \<noteq> [] then
              (case py_float py total_cost of
                 Some c \<Rightarrow> ((phones, c), s1)
               | None \<Rightarrow> (([], 0), s1))
            else (([], 0), s1))
       | _ \<Rightarrow> (([], 0), s1)))"

text \<open>The three alternative endpoints, each with \<open>Purchase\<close> 0 and then 1.\<close>

definition alternative_endpoints :: "builtins \<Rightarrow> json \<Rightarrow> string list" where
  "alternative_endpoints py person_key =
     [persons_url py person_key,
      persons_url py person_key @ ''/contact'',
      persons_url py person_key @ ''/contacts'']"

definition alternative_requests :: "builtins \<Rightarrow> json \<Rightarrow> request list" where
  "alternative_requests py person_key =
     concat (map (\<lambda>endpoint.
        map (\<lambda>purchase_mode.
          \<lparr>meth = GET, url = endpoint, purchase = purchase_mode, body = None\<rparr>) [0, 1])
        (alternative_endpoints py person_key))"

text \<open>
  The two nested loops of \<open>get_phone_data_alternative_endpoints\<close>, over the requests in
  the order in which they are made.
\<close>

fun phone_alternatives :: "'w server \<Rightarrow> request list \<Rightarrow> 'w net \<Rightarrow> contacts \<times> 'w net" where
  "phone_alternatives srv [] s = (([], 0), s)"
| "phone_alternatives srv (rq # rqs) s =
     (let (r, s1) = http srv rq s in
      (case ok_json r of
         Some data \<Rightarrow>
           (let phones = find_phone_numbers_in_response_comprehensive data in
            if phones \<noteq> [] then ((phones, 0), s1)
            else phone_alternatives srv rqs s1)
       | None \<Rightarrow> phone_alternatives srv rqs s1))"

definition get_phone_data_alternative_endpoints ::
  "builtins \<Rightarrow> 'w server \<Rightarrow> json \<Rightarrow> 'w net \<Rightarrow> contacts \<times> 'w net" where
  "get_phone_data_alternative_endpoints py srv person_key s =
     phone_alternatives srv (alternative_requests py person_key) s"

text \<open>
  Step 3 of \<open>get_phone_numbers_for_owner\<close>, the purchase. The branches for the status
  400 and for the other statuses differ in what they print only.
\<close>

definition purchase_phone_data ::
  "builtins \<Rightarrow> 'w server \<Rightarrow> string \<Rightarrow> 'w net \<Rightarrow> contacts \<times> 'w net" where
  "purchase_phone_data py srv u s =
     (let (r, s1) = http srv \<lparr>meth = POST, url = u, purchase = 1, body = None\<rparr> s in
      (case ok_json r of
         Some (JDict kvs) \<Rightarrow>
           (let total_cost = dict_get kvs ''totalCost'' (JNum 0);
                result_count = dict_get kvs ''resultCount'' (JNum 0);
                phones = extract_phones_from_data (repr py) (JDict kvs) in
            if phones \<noteq> [] \<or> comparable result_count then
              (case py_float py total_cost of
                 Some c \<Rightarrow> ((phones, c), s1)
               | None \<Rightarrow> (([], 0), s1))
            else (([], 0), s1))
       | _ \<Rightarrow> (([], 0), s1)))"

definition get_phone_numbers_for_owner ::
  "builtins \<Rightarrow> 'w server \<Rightarrow> json \<Rightarrow> 'w net \<Rightarrow> contacts \<times> 'w net" where
  "get_phone_numbers_for_owner py srv person_key s =
     (if \<not> truthy person_key then (([], 0), s)
      else
        (let u = persons_url py person_key @ ''/Phone'';
             (cached, s1) = get_cached_phone_data py srv u s in
         if fst cached \<noteq> [] then (cached, s1)
         else
           (let (alt, s2) = get_phone_data_alternative_endpoints py srv person_key s1 in
            if fst alt \<noteq> [] then (alt, s2)
            else purchase_phone_data py srv u s2)))"

section \<open>Email lookup\<close>

definition get_cached_email_data ::
  "builtins \<Rightarrow> 'w server \<Rightarrow> string \<Rightarrow> 'w net \<Rightarrow> contacts \<times> 'w net" where
  "get_cached_email_data py srv u s =
     (let (r, s1) = http srv \<lparr>meth = POST, url = u, purchase = 0, body = None\<rparr> s in
      (case ok_json r of
         Some (JDict kvs) \<Rightarrow>
           (let total_cost = dict_get kvs ''totalCost'' (JNum 0);
                emails = find_emails_in_response_comprehensive (JDict kvs) in
            if emails \<noteq> [] then
              (case py_float py total_cost of
                 Some c \<Rightarrow> ((emails, c), s1)
               | None \<Rightarrow> (([], 0), s1))
            else (([], 0), s1))
       | _ \<Rightarrow> (([], 0), s1)))"

fun email_alternatives :: "'w server \<Rightarrow> request list \<Rightarrow> 'w net \<Rightarrow> contacts \<times> 'w net" where
  "email_alternatives srv [] s = (([], 0), s)"
| "email_alternatives srv (rq # rqs) s =
     (let (r, s1) = http srv rq s in
      (case ok_json r of
         Some data \<Rightarrow>
           (let emails = find_emails_in_response_comprehensive data in
            if emails \<noteq> [] then ((emails, 0), s1)
            else email_alternatives srv rqs s1)
       | None \<Rightarrow> email_alternatives srv rqs s1))"

definition get_email_data_alternative_endpoints ::
  "builtins \<Rightarrow> 'w server \<Rightarrow> json \<Rightarrow> 'w net \<Rightarrow> contacts \<times> 'w net" where
  "get_email_data_alternative_endpoints py srv person_key s =
     email_alternatives srv (alternative_requests py person_key) s"

definition purchase_email_data ::
  "builtins \<Rightarrow> 'w server \<Rightarrow> string \<Rightarrow> 'w net \<Rightarrow> contacts \<times> 'w net" where
  "purchase_email_data py srv u s =
     (let (r, s1) = http srv \<lparr>meth = POST, url = u, purchase = 1, body = None\<rparr> s in
      (case ok_json r of
         Some (JDict kvs) \<Rightarrow>
           (let total_cost = dict_get kvs ''totalCost'' (JNum 0);
                result_count = dict_get kvs ''resultCount'' (JNum 0);
                emails = extract_emails_from_data (repr py) (JDict kvs) in
            if emails \<noteq> [] \<or> comparable result_count then
              (case py_float py total_cost of
                 Some c \<Rightarrow> ((emails, c), s1)
               | None \<Rightarrow> (([], 0), s1))
            else (([], 0), s1))
       | _ \<Rightarrow> (([], 0), s1)))"

definition get_emails_for_owner ::
  "builtins \<Rightarrow> 'w server \<Rightarrow> json \<Rightarrow> 'w net \<Rightarrow> contacts \<times> 'w net" where
  "get_emails_for_owner py srv person_key s =
     (if \<not> truthy person_key then (([], 0), s)
      else
        (let u = persons_url py person_key @ ''/Email'';
             (cached, s1) = get_cached_email_data py srv u s in
         if fst cached \<noteq> [] then (cached, s1)
         else
           (let (alt, s2) = get_email_data_alternative_endpoints py srv person_key s1 in
            if fst alt \<noteq> [] then (alt, s2)
            else purchase_email_data py srv u s2)))"

section \<open>Property search and owner resolution\<close>

definition criterion :: "string \<Rightarrow> string \<Rightarrow> json" where
  "criterion n v = JDict [(''name'', JStr n), (''value'', JList [JStr v])]"

definition request_data :: "components \<Rightarrow> json" where
  "request_data c =
     JDict [(''Criteria'', JList
       [criterion ''Address'' (street c), criterion ''City'' (city c),
        criterion ''State'' (state c), criterion ''ZipFive'' (zip c)])]"

text \<open>
  \<open>search_property_with_propertyradar\<close>: the value of \<open>data['results']\<close> when it is
  present and true, the empty list otherwise. An address that does not parse is answered
  without a request. Results that are true but have no length (a number, a truth value)
  raise in the print of \<open>len(data['results'])\<close>, inside the \<open>try\<close>, and give the
  empty list as every other exception does.
\<close>

definition search_property_with_propertyradar ::
  "'w server \<Rightarrow> string \<Rightarrow> bool \<Rightarrow> 'w net \<Rightarrow> json \<times> 'w net" where
  "search_property_with_propertyradar srv address0 use_paid_search s =
     (case parse_address address0 of
        None \<Rightarrow> (JList [], s)
      | Some c \<Rightarrow>
          (let (r, s1) = http srv
                 \<lparr>meth = POST, url = ''https://api.propertyradar.com/v1/properties'',
                  purchase = (if use_paid_search then 1 else 0),
                  body = Some (request_data c)\<rparr> s in
           (case ok_json r of
              Some (JDict kvs) \<Rightarrow>
                (case map_of kvs ''results'' of
                   Some res \<Rightarrow>
                     if truthy res \<and> has_len res then (res, s1) else (JList [], s1)
                 | None \<Rightarrow> (JList [], s1))
            | _ \<Rightarrow> (JList [], s1))))"

record owner_info =
  person_key :: json
  owner_name :: json
  ownership_role :: json
  person_type :: json
  mail_address :: json

text \<open>\<open>a or b\<close>.\<close>

definition py_or :: "json \<Rightarrow> json \<Rightarrow> json" where
  "py_or a b = (if truthy a then a else b)"

text \<open>
  The loop of \<open>get_owners_by_radar_id\<close> over \<open>data['results']\<close>: \<open>None\<close> when an
  element is no mapping, where \<open>owner.get\<close> raises.
\<close>

fun owner_infos :: "json list \<Rightarrow> owner_info list option" where
  "owner_infos [] = Some []"
| "owner_infos (JDict kvs # rest) =
     (case owner_infos rest of
        None \<Rightarrow> None
      | Some os \<Rightarrow>
          Some (\<lparr>person_key = dict_get kvs ''PersonKey'' JNull,
                 owner_name = py_or (dict_get kvs ''EntityName'' JNull)
                     (py_or (dict_get kvs ''Name'' JNull) (JStr ''Unknown Owner'')),
                 ownership_role = dict_get kvs ''OwnershipRole'' (JStr ''Unknown''),
                 person_type = dict_get kvs ''PersonType'' (JStr ''Unknown''),
                 mail_address = dict_get kvs ''MailAddress'' (JList [])\<rparr> # os))"
| "owner_infos (v # rest) = None"

text \<open>
  \<open>get_owners_by_radar_id\<close>, always with \<open>Purchase\<close> 1. Whatever raises inside its
  \<open>try\<close> gives the empty list: results that are no list of mappings included.
\<close>

definition get_owners_by_radar_id ::
  "builtins \<Rightarrow> 'w server \<Rightarrow> json \<Rightarrow> 'w net \<Rightarrow> owner_info list \<times> 'w net" where
  "get_owners_by_radar_id py srv radar_id s =
     (let (r, s1) = http srv
            \<lparr>meth = GET,
             url = ''https://api.propertyradar.com/v1/properties/''
                   @ py_str (repr py) radar_id @ ''/persons'',
             purchase = 1, body = None\<rparr> s in
      (case ok_json r of
         Some (JDict kvs) \<Rightarrow>
           (case map_of kvs ''results'' of
              Some (JList owners) \<Rightarrow>
                (case owner_infos owners of Some os \<Rightarrow> (os, s1) | None \<Rightarrow> ([], s1))
            | _ \<Rightarrow> ([], s1))
       | _ \<Rightarrow> ([], s1)))"

text \<open>An exception that nothing catches ends the run.\<close>

datatype crash = Uncaught

text \<open>
  The loop of \<open>extract_owner_info\<close>, which has no \<open>try\<close> of its own: a result that is
  no mapping raises at \<open>result.get\<close>.
\<close>

fun owners_of_results ::
  "builtins \<Rightarrow> 'w server \<Rightarrow> json list \<Rightarrow> 'w net \<Rightarrow> (crash + owner_info list) \<times> 'w net" where
  "owners_of_results py srv [] s = (Inr [], s)"
| "owners_of_results py srv (JDict kvs # rest) s =
     (let radar_id = dict_get kvs ''RadarID'' JNull in
      if \<not> truthy radar_id then owners_of_results py srv rest s
      else
        (let (owner_data, s1) = get_owners_by_radar_id py srv radar_id s in
         (case owners_of_results py srv rest s1 of
            (Inr os, s2) \<Rightarrow> (Inr (owner_data @ os), s2)
          | (Inl e, s2) \<Rightarrow> (Inl e, s2))))"
| "owners_of_results py srv (v # rest) s = (Inl Uncaught, s)"

text \<open>
  \<open>extract_owner_info\<close>: iterating over results that are no list raises, at
  \<open>result.get\<close> on the first element (a character of a string, a key of a mapping) or
  at once (a number or a truth value is not iterable).
\<close>

definition extract_owner_info ::
  "builtins \<Rightarrow> 'w server \<Rightarrow> json \<Rightarrow> 'w net \<Rightarrow> (crash + owner_info list) \<times> 'w net" where
  "extract_owner_info py srv property_results s =
     (case property_results of
        JList results \<Rightarrow> owners_of_results py srv results s
      | _ \<Rightarrow> (Inl Uncaught, s))"

section \<open>The run\<close>

record owner_detail =
  od_name :: json
  od_person_key :: json
  od_phones :: "string list"
  od_emails :: "string list"
  od_phone_cost :: rat
  od_email_cost :: rat

record report =
  address :: string
  owners :: "owner_detail list"
  phones :: "string list"
  emails :: "string list"
  status :: string

definition USE_PAID_SEARCH :: bool where
  "USE_PAID_SEARCH = True"

text \<open>One round of the loop of \<open>main\<close> over the owners of an address.\<close>

definition lookup_owner ::
  "builtins \<Rightarrow> 'w server \<Rightarrow> bool \<Rightarrow> owner_info \<Rightarrow> 'w net \<Rightarrow> owner_detail \<times> 'w net" where
  "lookup_owner py srv use_paid owner s =
     (if truthy (person_key owner) \<and> use_paid then
        (let ((owner_phones, phone_cost), s1) =
               get_phone_numbers_for_owner py srv (person_key owner) s;
             ((owner_emails, email_cost), s2) =
               get_emails_for_owner py srv (person_key owner) s1 in
         (\<lparr>od_name = owner_name owner, od_person_key = person_key owner,
           od_phones = owner_phones, od_emails = owner_emails,
           od_phone_cost = phone_cost, od_email_cost = email_cost\<rparr>, s2))
      else
        (\<lparr>od_name = owner_name owner, od_person_key = person_key owner,
          od_phones = [], od_emails = [], od_phone_cost = 0, od_email_cost = 0\<rparr>, s))"

fun lookup_owners ::
  "builtins \<Rightarrow> 'w server \<Rightarrow> bool \<Rightarrow> owner_info list \<Rightarrow> 'w net \<Rightarrow> owner_detail list \<times> 'w net" where
  "lookup_owners py srv use_paid [] s = ([], s)"
| "lookup_owners py srv use_paid (owner # rest) s =
     (let (d, s1) = lookup_owner py srv use_paid owner s;
          (ds, s2) = lookup_owners py srv use_paid rest s1 in
      (d # ds, s2))"

text \<open>
  One round of the loop of \<open>main\<close> over the items of the board: the record appended to
  \<open>results\<close>, or the exception that ends the run. The pause after an address is left out.
\<close>

definition process_item ::
  "builtins \<Rightarrow> 'w server \<Rightarrow> bool \<Rightarrow> item \<Rightarrow> 'w net \<Rightarrow> (crash + report) \<times> 'w net" where
  "process_item py srv use_paid it s =
     (case extract_address it of
        None \<Rightarrow>
          (Inr \<lparr>address = ''No address'', owners = [], phones = [], emails = [],
                status = ''No address''\<rparr>, s)
      | Some a \<Rightarrow>
          (let (property_results, s1) = search_property_with_propertyradar srv a use_paid s in
           if \<not> truthy property_results then
             (Inr \<lparr>address = a, owners = [], phones = [], emails = [],
                   status = ''No property data''\<rparr>, s1)
           else
             (case extract_owner_info py srv property_results s1 of
                (Inl e, s2) \<Rightarrow> (Inl e, s2)
              | (Inr os, s2) \<Rightarrow>
                  if os = [] then
                    (Inr \<lparr>address = a, owners = [], phones = [], emails = [],
                          status = ''No owners found''\<rparr>, s2)
                  else
                    (let (owner_details, s3) = lookup_owners py srv use_paid os s2;
                         all_phones = concat (map od_phones owner_details);
                         all_emails = concat (map od_emails owner_details) in
                     (Inr \<lparr>address = a, owners = owner_details,
                           phones = remdups all_phones, emails = remdups all_emails,
                           status = (if all_phones \<noteq> [] \<or> all_emails \<noteq> [] then ''Success''
                                     else ''No contact info found'')\<rparr>, s3)))))"

text \<open>The loop of \<open>main\<close>: the records in order, or the exception that ends the run.\<close>

fun process_items ::
  "builtins \<Rightarrow> 'w server \<Rightarrow> bool \<Rightarrow> item list \<Rightarrow> report list \<Rightarrow> 'w net
     \<Rightarrow> (crash + report list) \<times> 'w net" where
  "process_items py srv use_paid [] results s = (Inr results, s)"
| "process_items py srv use_paid (it # its) results s =
     (case process_item py srv use_paid it s of
        (Inl e, s1) \<Rightarrow> (Inl e, s1)
      | (Inr r, s1) \<Rightarrow> process_items py srv use_paid its (results @ [r]) s1)"

definition main :: "builtins \<Rightarrow> 'w server \<Rightarrow> item list \<Rightarrow> 'w net \<Rightarrow> (crash + report list) \<times> 'w net" where
  "main py srv items s = process_items py srv USE_PAID_SEARCH items [] s"

section \<open>The exchange of a sequence of requests\<close>

text \<open>
  What the provider answers when the requests of a list are sent one after the other,
  whatever the program makes of the answers: each response with the state after it.
\<close>

fun exchange :: "'w server \<Rightarrow> request list \<Rightarrow> 'w net \<Rightarrow> (response \<times> 'w net) list" where
  "exchange srv [] s = []"
| "exchange srv (rq # rqs) s =
     (let (r, s1) = http srv rq s in (r, s1) # exchange srv rqs s1)"

text \<open>
  The contact list that a response yields: what the comprehensive extractor finds in
  its payload, nothing when there is no payload.
\<close>

definition phones_of_response :: "response \<Rightarrow> string list" where
  "phones_of_response r =
     (case ok_json r of
        Some data \<Rightarrow> find_phone_numbers_in_response_comprehensive data
      | None \<Rightarrow> [])"

definition emails_of_response :: "response \<Rightarrow> string list" where
  "emails_of_response r =
     (case ok_json r of
        Some data \<Rightarrow> find_emails_in_response_comprehensive data
      | None \<Rightarrow> [])"

section \<open>Example providers\<close>

text \<open>
  Concrete providers and conversions for the examples below. The first provider answers
  every request with the status 404. The second serves the data on file: it answers a
  \<open>POST\<close> without purchase with a payload that holds a phone number and an email
  address. The third answers only a \<open>POST\<close> that purchases, with an email value of
  two characters. The fourth answers only a \<open>GET\<close> that carries \<open>Purchase=1\<close>.
\<close>

definition py0 :: builtins where
  "py0 = \<lparr>repr = (\<lambda>v. ''?''), float_num = (\<lambda>q. Some q), float_str = (\<lambda>s. None)\<rparr>"

definition net0 :: "unit net" where
  "net0 = \<lparr>world = (), sent = []\<rparr>"

definition srv_none :: "unit server" where
  "srv_none w rq = (Http 404 None, w)"

definition payload_on_file :: json where
  "payload_on_file =
     JDict [(''totalCost'', JNum 0),
            (''results'', JList [JDict [(''Phone'', JStr ''555-123-4567''),
                                        (''Email'', JStr ''a@b.com'')]])]"

definition srv_on_file :: "unit server" where
  "srv_on_file w rq =
     (if meth rq = POST \<and> purchase rq = 0 then (Http 200 (Some payload_on_file), w)
      else (Http 404 None, w))"

definition payload_short_email :: json where
  "payload_short_email = JDict [(''totalCost'', JNum 0), (''Email'', JStr ''@.'')]"

definition srv_purchase :: "unit server" where
  "srv_purchase w rq =
     (if meth rq = POST \<and> purchase rq = 1 then (Http 200 (Some payload_short_email), w)
      else (Http 404 None, w))"

definition srv_get_paid :: "unit server" where
  "srv_get_paid w rq =
     (if meth rq = GET \<and> purchase rq = 1 then (Http 200 (Some payload_on_file), w)
      else (Http 404 None, w))"

text \<open>
  A fifth provider answers every \<open>GET\<close> with the data on file. A sixth answers a
  \<open>POST\<close> without purchase with a payload that holds the same phone number in two
  spellings.
\<close>

definition srv_get :: "unit server" where
  "srv_get w rq =
     (if meth rq = GET then (Http 200 (Some payload_on_file), w)
      else (Http 404 None, w))"

definition payload_two_spellings :: json where
  "payload_two_spellings =
     JDict [(''totalCost'', JNum 0),
            (''Phone'', JStr ''555-123-4567''),
            (''HomePhone'', JStr ''555.123.4567'')]"

definition srv_two_spellings :: "unit server" where
  "srv_two_spellings w rq =
     (if meth rq = POST \<and> purchase rq = 0 then (Http 200 (Some payload_two_spellings), w)
      else (Http 404 None, w))"

section \<open>Address parsing: the parser and the reference algorithm\<close>

lemma split_comma_nonempty: "split_comma s \<noteq> []"
  by (induction s) (auto split: list.splits)

lemma parse_secondary_spec:
  "parse_secondary parts =
     (if length parts \<ge> 2 then spec_secondary (py_strip (parts ! 0)) (py_strip (parts ! 1))
      else None)"
  by (simp add: parse_secondary_def spec_secondary_def split: option.splits)

text \<open>
  C2, as stated, fails: an input of three segments whose third segment is no state and
  zip code is not rejected. The parser goes on to the combined pattern on the second
  segment, which the reference algorithm applies to inputs of exactly two segments only.
\<close>

theorem parse_address_not_reference:
  "parse_address ''a,b MS 12345,c''
     = Some \<lparr>street = ''a'', city = ''b'', state = ''MS'', zip = ''12345''\<rparr>
   \<and> spec_parse ''a,b MS 12345,c'' = None"
  by code_simp

text \<open>
  C2, amended: \<open>parse_address\<close> equals the reference algorithm on every input of fewer
  than three segments and on every input whose third segment matches the primary pattern;
  on an input of three or more segments whose third segment does not match, it is the
  combined pattern applied to the first two segments; and every input of fewer than two
  segments fails.
\<close>

theorem parse_address_amended:
  "(length (split_comma raw) < 3
      \<or> match_state_zip (py_strip (split_comma raw ! 2)) \<noteq> None
      \<longrightarrow> parse_address raw = spec_parse raw)
   \<and> (length (split_comma raw) \<ge> 3
      \<and> match_state_zip (py_strip (split_comma raw ! 2)) = None
      \<longrightarrow> parse_address raw
          = spec_secondary (py_strip (split_comma raw ! 0)) (py_strip (split_comma raw ! 1)))
   \<and> (length (split_comma raw) < 2 \<longrightarrow> parse_address raw = None)"
proof -
  let ?parts = "split_comma raw"
  have ne: "?parts \<noteq> []" by (rule split_comma_nonempty)
  note sec = parse_secondary_spec [of ?parts]
  have n0: "map py_strip ?parts ! 0 = py_strip (?parts ! 0)"
    using ne by (cases ?parts) simp_all
  have n1: "length ?parts \<ge> 2 \<Longrightarrow> map py_strip ?parts ! 1 = py_strip (?parts ! 1)"
    by (rule nth_map) simp
  have n2: "length ?parts \<ge> 3 \<Longrightarrow> map py_strip ?parts ! 2 = py_strip (?parts ! 2)"
    by (rule nth_map) simp
  have small: "length ?parts < 3 \<Longrightarrow> parse_address raw = spec_parse raw"
    using ne
    by (cases "length ?parts = 2")
       (auto simp: parse_address_def spec_parse_def Let_def sec n0 n1)
  have prim: "length ?parts \<ge> 3 \<Longrightarrow> match_state_zip (py_strip (?parts ! 2)) \<noteq> None
      \<Longrightarrow> parse_address raw = spec_parse raw"
    by (auto simp: parse_address_def spec_parse_def spec_primary_def Let_def n0 n1 n2)
  have fall: "length ?parts \<ge> 3 \<Longrightarrow> match_state_zip (py_strip (?parts ! 2)) = None
      \<Longrightarrow> parse_address raw
          = spec_secondary (py_strip (?parts ! 0)) (py_strip (?parts ! 1))"
    by (simp add: parse_address_def Let_def sec)
  have short: "length ?parts < 2 \<Longrightarrow> parse_address raw = None"
    by (simp add: parse_address_def Let_def sec)
  show ?thesis using small prim fall short by (cases "length ?parts < 3") auto
qed

theorem parse_address_amended_witness:
  "parse_address ''400 LAS COLINAS BLVD E, IRVING, TX 75039''
     = spec_parse ''400 LAS COLINAS BLVD E, IRVING, TX 75039''
   \<and> parse_address ''a,b MS 12345,c'' = spec_secondary ''a'' ''b MS 12345''
   \<and> parse_address ''no commas here'' = None"
proof -
  have b: "match_state_zip
      (py_strip (split_comma ''400 LAS COLINAS BLVD E, IRVING, TX 75039'' ! 2)) \<noteq> None"
    by code_simp
  have c: "length (split_comma ''a,b MS 12345,c'') \<ge> 3" by code_simp
  have d: "match_state_zip (py_strip (split_comma ''a,b MS 12345,c'' ! 2)) = None"
    by code_simp
  have e: "py_strip (split_comma ''a,b MS 12345,c'' ! 0) = ''a''" by code_simp
  have f: "py_strip (split_comma ''a,b MS 12345,c'' ! 1) = ''b MS 12345''" by code_simp
  have g: "length (split_comma ''no commas here'') < 2" by code_simp
  from parse_address_amended [of "''400 LAS COLINAS BLVD E, IRVING, TX 75039''"] b
  have 1: "parse_address ''400 LAS COLINAS BLVD E, IRVING, TX 75039''
     = spec_parse ''400 LAS COLINAS BLVD E, IRVING, TX 75039''" by blast
  from parse_address_amended [of "''a,b MS 12345,c''"] c d e f
  have 2: "parse_address ''a,b MS 12345,c'' = spec_secondary ''a'' ''b MS 12345''" by metis
  from parse_address_amended [of "''no commas here''"] g
  have 3: "parse_address ''no commas here'' = None" by blast
  from 1 2 3 show ?thesis by blast
qed

section \<open>Address extraction from a board item\<close>

lemma column_address_none:
  "(\<forall>c \<in> set cs. \<forall>t. col_text c = Some t \<longrightarrow> \<not> any_in address_indicators (py_lower t))
     \<Longrightarrow> column_address cs = None"
  by (induction cs) (auto split: option.splits)

text \<open>
  C10: an item named exactly "New address" gives no address; for any other item, when
  neither its name nor the text of any of its columns contains a street-type keyword
  (case-insensitively), the name itself is returned whenever it is not empty, and only
  the empty name gives no address.
\<close>

theorem extract_address_fallback:
  "(item_name it = ''New address'' \<longrightarrow> extract_address it = None)
   \<and> (item_name it \<noteq> ''New address''
       \<and> \<not> any_in address_indicators (py_lower (item_name it))
       \<and> (\<forall>c \<in> set (column_values it). \<forall>t. col_text c = Some t
              \<longrightarrow> \<not> any_in address_indicators (py_lower t))
       \<longrightarrow> extract_address it = (if item_name it = [] then None else Some (item_name it)))"
  by (auto simp: extract_address_def column_address_none)

theorem extract_address_fallback_witness:
  "extract_address \<lparr>item_name = ''New address'', column_values = []\<rparr> = None
   \<and> extract_address \<lparr>item_name = ''Bob Jones'',
        column_values = [\<lparr>col_text = Some ''call back''\<rparr>, \<lparr>col_text = None\<rparr>]\<rparr>
       = Some ''Bob Jones''
   \<and> extract_address \<lparr>item_name = [],
        column_values = [\<lparr>col_text = Some ''call back''\<rparr>]\<rparr> = None"
proof -
  have n1: "\<not> any_in address_indicators (py_lower ''Bob Jones'')" by code_simp
  have n2: "\<not> any_in address_indicators (py_lower ''call back'')" by code_simp
  have n3: "\<not> any_in address_indicators (py_lower [])" by code_simp
  have 1: "extract_address \<lparr>item_name = ''New address'', column_values = []\<rparr> = None"
    using extract_address_fallback [of "\<lparr>item_name = ''New address'', column_values = []\<rparr>"]
    by simp
  have 2: "extract_address \<lparr>item_name = ''Bob Jones'',
        column_values = [\<lparr>col_text = Some ''call back''\<rparr>, \<lparr>col_text = None\<rparr>]\<rparr>
       = Some ''Bob Jones''"
    using extract_address_fallback [of "\<lparr>item_name = ''Bob Jones'',
        column_values = [\<lparr>col_text = Some ''call back''\<rparr>, \<lparr>col_text = None\<rparr>]\<rparr>"] n1 n2
    by simp
  have 3: "extract_address \<lparr>item_name = [],
        column_values = [\<lparr>col_text = Some ''call back''\<rparr>]\<rparr> = None"
    using extract_address_fallback [of "\<lparr>item_name = [],
        column_values = [\<lparr>col_text = Some ''call back''\<rparr>]\<rparr>"] n2 n3
    by simp
  from 1 2 3 show ?thesis by blast
qed

section \<open>Fuzzy field extraction: what the key decides\<close>

lemma phone_search_items_append:
  "phone_search_items (xs @ ys) = phone_search_items xs @ phone_search_items ys"
  by (induction xs) auto

text \<open>
  C5, as stated, fails: for the mapping with the key "HomePhone" and the value
  "(555) 123-4567" the extractor records no candidate. The key matches, but the pattern
  allows only a hyphen or a dot between the groups of digits, not the parenthesis and the
  space.
\<close>

theorem home_phone_parenthesised_no_candidate:
  "phone_search_recursive (JDict [(''HomePhone'', JStr ''(555) 123-4567'')]) = []
   \<and> find_phone_numbers_in_response_comprehensive
        (JDict [(''HomePhone'', JStr ''(555) 123-4567'')]) = []"
  by code_simp

text \<open>
  C5, amended: for "HomePhone" with the value "555-123-4567" the extractor records the
  matched text, which is cleaned to "(555) 123-4567"; for "notes" with a value that holds
  a phone number it records nothing; and in every mapping a string value under a key
  that contains no indicator contributes nothing, whatever the string is: the candidates
  are those of the mapping without that entry.
\<close>

theorem phone_candidates_key_driven:
  "phone_search_recursive (JDict [(''HomePhone'', JStr ''555-123-4567'')]) = [''555-123-4567'']
   \<and> find_phone_numbers_in_response_comprehensive
        (JDict [(''HomePhone'', JStr ''555-123-4567'')]) = [''(555) 123-4567'']
   \<and> phone_search_recursive (JDict [(''notes'', JStr ''call 555-123-4567 maybe'')]) = []
   \<and> (\<not> any_in phone_indicators (py_lower key)
        \<longrightarrow> phone_search_recursive (JDict (xs @ (key, JStr s) # ys))
            = phone_search_recursive (JDict (xs @ ys)))"
proof -
  have 1: "phone_search_recursive (JDict [(''HomePhone'', JStr ''555-123-4567'')]) = [''555-123-4567'']"
    by code_simp
  have 2: "find_phone_numbers_in_response_comprehensive
        (JDict [(''HomePhone'', JStr ''555-123-4567'')]) = [''(555) 123-4567'']"
    by code_simp
  have 3: "phone_search_recursive (JDict [(''notes'', JStr ''call 555-123-4567 maybe'')]) = []"
    by code_simp
  have 4: "\<not> any_in phone_indicators (py_lower key)
        \<Longrightarrow> phone_search_recursive (JDict (xs @ (key, JStr s) # ys))
            = phone_search_recursive (JDict (xs @ ys))"
    by (simp add: phone_search_items_append)
  from 1 2 3 4 show ?thesis by blast
qed

theorem phone_candidates_key_driven_witness:
  "phone_search_recursive (JDict ([(''Phone'', JStr ''555-123-4567'')] @ (''notes'', JStr ''call 555-987-6543 maybe'') # []))
     = phone_search_recursive (JDict ([(''Phone'', JStr ''555-123-4567'')] @ []))
   \<and> phone_search_recursive (JDict [(''Phone'', JStr ''555-123-4567'')]) = [''555-123-4567'']"
proof -
  have n: "\<not> any_in phone_indicators (py_lower ''notes'')" by code_simp
  have 1: "phone_search_recursive (JDict ([(''Phone'', JStr ''555-123-4567'')] @ (''notes'', JStr ''call 555-987-6543 maybe'') # []))
     = phone_search_recursive (JDict ([(''Phone'', JStr ''555-123-4567'')] @ []))"
    using phone_candidates_key_driven [of "''notes''" "[(''Phone'', JStr ''555-123-4567'')]" "''call 555-987-6543 maybe''" "[]"] n
    by blast
  have 2: "phone_search_recursive (JDict [(''Phone'', JStr ''555-123-4567'')]) = [''555-123-4567'']"
    by code_simp
  from 1 2 show ?thesis by blast
qed

text \<open>
  C6, as stated, fails: under a key that is an indicator, a nested value is explored
  once, not twice. The test of the value's type is the \<open>elif\<close> of the test of the key,
  so only one of the two recursive calls is made, and a number inside is recorded once.
\<close>

theorem nested_subtree_not_explored_twice:
  "phone_search_items_calls
      [(''Phone'', JDict [(''areaCode'', JStr ''555''), (''number'', JStr ''555-123-4567'')])] = 1
   \<and> phone_search_calls
        (JDict [(''areaCode'', JStr ''555''), (''number'', JStr ''555-123-4567'')]) = 1
   \<and> phone_search_recursive
        (JDict [(''Phone'', JDict [(''areaCode'', JStr ''555''), (''number'', JStr ''555-123-4567'')])])
       = [''555-123-4567'']
   \<and> email_search_items_calls [(''Email'', JDict [(''mail'', JStr ''a@b.com'')])] = 1
   \<and> email_search_calls (JDict [(''mail'', JStr ''a@b.com'')]) = 1
   \<and> email_search_recursive (JDict [(''Email'', JDict [(''mail'', JStr ''a@b.com'')])])
       = [''a@b.com'']"
  by code_simp

text \<open>
  C6, amended: for every entry of a mapping whose value is itself a mapping or a
  sequence, whether or not its key is an indicator, the traversal recurses into the value
  exactly once: the entry contributes the candidates of the value, once, and the calls
  of the value, once. This holds for the phone and for the email extractor.
\<close>

theorem nested_subtree_explored_once:
  "is_container v \<longrightarrow>
     phone_search_items ((key, v) # kvs) = phone_search_recursive v @ phone_search_items kvs
   \<and> phone_search_items_calls ((key, v) # kvs)
       = phone_search_calls v + phone_search_items_calls kvs
   \<and> email_search_items ((key, v) # kvs) = email_search_recursive v @ email_search_items kvs
   \<and> email_search_items_calls ((key, v) # kvs)
       = email_search_calls v + email_search_items_calls kvs"
  by (cases v) simp_all

theorem nested_subtree_explored_once_witness:
  "phone_search_items [(''Phone'', JDict [(''number'', JStr ''555-123-4567'')])]
     = phone_search_recursive (JDict [(''number'', JStr ''555-123-4567'')]) @ phone_search_items []
   \<and> phone_search_items_calls [(''Phone'', JDict [(''number'', JStr ''555-123-4567'')])]
     = phone_search_calls (JDict [(''number'', JStr ''555-123-4567'')]) + phone_search_items_calls []
   \<and> phone_search_calls (JDict [(''number'', JStr ''555-123-4567'')]) = 1"
proof -
  have c: "is_container (JDict [(''number'', JStr ''555-123-4567'')])" by simp
  have 3: "phone_search_calls (JDict [(''number'', JStr ''555-123-4567'')]) = 1" by code_simp
  from nested_subtree_explored_once [of "JDict [(''number'', JStr ''555-123-4567'')]" "''Phone''" "[]"] c 3
  show ?thesis by blast
qed

section \<open>Contact normalisation: the cleaning loops and the specification\<close>

lemma format_phone10_canonical:
  "length ds = 10 \<Longrightarrow> format_phone10 ds = canonical_phone ds"
  by (auto simp: eval_nat_numeral length_Suc_conv format_phone10_def)

lemma format_phone11_drop:
  "format_phone11 ds = format_phone10 (drop 1 ds)"
  by (simp add: format_phone11_def format_phone10_def)

lemma take1_hd: "ds \<noteq> [] \<Longrightarrow> (take 1 ds = [c]) = (hd ds = c)"
  by (cases ds) auto

lemma clean_phone_spec:
  "clean_phone p = (case spec_normalize_phone p of Some y \<Rightarrow> [y] | None \<Rightarrow> [])"
proof -
  let ?ds = "filter isdigit p"
  have t: "length ?ds = 11 \<Longrightarrow> (take 1 ?ds = ''1'') = (hd ?ds = CHR ''1'')"
    by (rule take1_hd) auto
  have e: "length ?ds = 11 \<Longrightarrow> format_phone11 ?ds = canonical_phone (tl ?ds)"
    by (simp add: format_phone11_drop format_phone10_canonical drop_Suc)
  show ?thesis
  proof (cases "length ?ds = 10")
    case True
    then show ?thesis
      by (simp add: clean_phone_def spec_normalize_phone_def Let_def format_phone10_canonical)
  next
    case False
    show ?thesis
    proof (cases "length ?ds = 11")
      case True
      with False t e show ?thesis
        by (simp add: clean_phone_def spec_normalize_phone_def Let_def)
    next
      case False
      with \<open>length ?ds \<noteq> 10\<close> show ?thesis
        by (simp add: clean_phone_def spec_normalize_phone_def Let_def)
    qed
  qed
qed

lemma set_clean_phones: "set (clean_phones raw) = (\<Union>p \<in> set raw. set (clean_phone p))"
  by (simp add: clean_phones_def)

lemma set_clean_phones_spec: "set (clean_phones raw) = spec_normalizePhones raw"
  unfolding set_clean_phones spec_normalizePhones_def clean_phone_spec
  by (auto split: option.splits)

lemma set_normalize_phones_extract:
  "set (normalize_phones_extract raw) = (\<Union>p \<in> set raw. set (clean_phone p))"
  by (simp add: normalize_phones_extract_def set_clean_phones)

lemma set_normalize_phones_comprehensive:
  "set (normalize_phones_comprehensive raw) = (\<Union>p \<in> set raw. set (clean_phone p))"
  by (simp add: normalize_phones_comprehensive_def set_clean_phones)

text \<open>
  The mapping of the entries: for every list of raw phone strings, both cleaning loops
  produce, as a set, the normaliser of the specification, and the result of
  \<open>extract_phones_from_data\<close> has no duplicates.
\<close>

lemma normalize_phones_spec:
  "set (normalize_phones_extract raw) = spec_normalizePhones raw
   \<and> set (normalize_phones_comprehensive raw) = spec_normalizePhones raw
   \<and> distinct (normalize_phones_extract raw)
   \<and> spec_normalizePhones [''5551234567'', ''15551234567'', ''5551234567'']
       = {''(555) 123-4567''}"
proof -
  have 1: "set (normalize_phones_extract raw) = spec_normalizePhones raw"
    by (simp add: set_normalize_phones_extract set_clean_phones_spec [symmetric] set_clean_phones)
  have 2: "set (normalize_phones_comprehensive raw) = spec_normalizePhones raw"
    by (simp add: set_normalize_phones_comprehensive set_clean_phones_spec [symmetric] set_clean_phones)
  have 3: "distinct (normalize_phones_extract raw)"
    by (simp add: normalize_phones_extract_def)
  have "clean_phones [''5551234567'', ''15551234567'', ''5551234567'']
       = [''(555) 123-4567'', ''(555) 123-4567'', ''(555) 123-4567'']"
    by code_simp
  then have "set (clean_phones [''5551234567'', ''15551234567'', ''5551234567''])
       = {''(555) 123-4567''}"
    by simp
  then have 4: "spec_normalizePhones [''5551234567'', ''15551234567'', ''5551234567'']
       = {''(555) 123-4567''}"
    by (simp only: set_clean_phones_spec)
  from 1 2 3 4 show ?thesis by blast
qed

lemma normalize_phones_spec_example:
  "set (normalize_phones_extract [''5551234567'', ''15551234567'', ''5551234567''])
     = {''(555) 123-4567''}
   \<and> set (normalize_phones_comprehensive [''5551234567'', ''15551234567'', ''5551234567''])
     = {''(555) 123-4567''}
   \<and> normalize_phones_extract [''5551234567'', ''15551234567'', ''5551234567'']
     = [''(555) 123-4567'']"
proof -
  have e: "normalize_phones_extract [''5551234567'', ''15551234567'', ''5551234567'']
     = [''(555) 123-4567'']" by code_simp
  from normalize_phones_spec [of "[''5551234567'', ''15551234567'', ''5551234567'']"]
  have "set (normalize_phones_extract [''5551234567'', ''15551234567'', ''5551234567''])
     = {''(555) 123-4567''}"
    and "set (normalize_phones_comprehensive [''5551234567'', ''15551234567'', ''5551234567''])
     = {''(555) 123-4567''}"
    by (simp_all only:)
  with e show ?thesis by blast
qed

subsection \<open>Fixed points\<close>

lemma not_digit_punct:
  "\<not> isdigit CHR ''(''" "\<not> isdigit CHR '')''" "\<not> isdigit CHR '' ''" "\<not> isdigit CHR ''-''"
  by (simp_all add: isdigit_def code_def)

lemma filter_digits_id:
  "\<forall>c \<in> set ds. isdigit c \<Longrightarrow> set xs \<subseteq> set ds \<Longrightarrow> filter isdigit xs = xs"
  by (auto simp: filter_id_conv)

lemma digits_format_phone10:
  assumes a: "\<forall>c \<in> set ds. isdigit c"
  shows "filter isdigit (format_phone10 ds) = ds"
proof -
  have f1: "filter isdigit (take 3 ds) = take 3 ds"
    by (rule filter_digits_id [OF a]) (rule set_take_subset)
  have f2: "filter isdigit (take 3 (drop 3 ds)) = take 3 (drop 3 ds)"
    by (rule filter_digits_id [OF a]) (meson set_take_subset set_drop_subset subset_trans)
  have f3: "filter isdigit (drop 6 ds) = drop 6 ds"
    by (rule filter_digits_id [OF a]) (rule set_drop_subset)
  have "filter isdigit (format_phone10 ds) = take 3 ds @ take 3 (drop 3 ds) @ drop 6 ds"
    by (simp add: format_phone10_def not_digit_punct f1 f2 f3)
  also have "take 3 (drop 3 ds) @ drop 6 ds = drop 3 ds"
    using append_take_drop_id [of 3 "drop 3 ds"] by simp
  finally show ?thesis by simp
qed

lemma clean_phone_fixed:
  assumes "y \<in> set (clean_phone p)"
  shows "clean_phone y = [y]"
proof -
  let ?ds = "filter isdigit p"
  have dg: "\<forall>c \<in> set ?ds. isdigit c" by simp
  have dg1: "\<forall>c \<in> set (drop 1 ?ds). isdigit c"
    using set_drop_subset [of 1 ?ds] by auto
  consider (ten) "length ?ds = 10" "y = format_phone10 ?ds"
    | (eleven) "length ?ds = 11" "y = format_phone11 ?ds"
    | (keep) "length ?ds \<noteq> 10" "\<not> (length ?ds = 11 \<and> take 1 ?ds = ''1'')" "length ?ds \<ge> 10" "y = p"
    using assms by (auto simp: clean_phone_def Let_def split: if_splits)
  then show ?thesis
  proof cases
    case ten
    then show ?thesis
      using digits_format_phone10 [OF dg] by (simp add: clean_phone_def Let_def)
  next
    case eleven
    have "filter isdigit y = drop 1 ?ds"
      using eleven digits_format_phone10 [OF dg1] by (simp add: format_phone11_drop)
    moreover have "length (drop 1 ?ds) = 10" using eleven by simp
    ultimately show ?thesis
      using eleven by (simp add: clean_phone_def Let_def format_phone11_drop)
  next
    case keep
    then show ?thesis by (auto simp: clean_phone_def Let_def)
  qed
qed

lemma dropWhile_fix: "xs = [] \<or> \<not> P (hd xs) \<Longrightarrow> dropWhile P xs = xs"
  by (cases xs) auto

lemma hd_rev_dropWhile_rev:
  "rev (dropWhile P (rev t)) \<noteq> [] \<Longrightarrow> hd (rev (dropWhile P (rev t))) = hd t"
proof (induction t rule: rev_induct)
  case Nil
  then show ?case by simp
next
  case (snoc x xs)
  show ?case
  proof (cases "P x")
    case True
    with snoc show ?thesis by (cases xs) auto
  next
    case False
    then show ?thesis by (cases xs) auto
  qed
qed

lemma rev_dropWhile_rev_nonempty:
  "rev (dropWhile P (rev t)) \<noteq> [] \<Longrightarrow> t \<noteq> []"
  by auto

lemma strip_core:
  assumes "t = [] \<or> \<not> P (hd t)"
  shows "dropWhile P (rev (dropWhile P (rev t))) = rev (dropWhile P (rev t))"
proof (cases "rev (dropWhile P (rev t)) = []")
  case True
  then show ?thesis by (simp only: dropWhile.simps)
next
  case False
  then have h: "hd (rev (dropWhile P (rev t))) = hd t" by (rule hd_rev_dropWhile_rev)
  from False have "t \<noteq> []" by (rule rev_dropWhile_rev_nonempty)
  with assms have "\<not> P (hd t)" by blast
  with h have "\<not> P (hd (rev (dropWhile P (rev t))))" by metis
  then show ?thesis by (intro dropWhile_fix disjI2)
qed

lemma py_strip_idem: "py_strip (py_strip s) = py_strip s"
proof -
  have "dropWhile isspace s = [] \<or> \<not> isspace (hd (dropWhile isspace s))"
    using hd_dropWhile [of isspace s] by blast
  then have "dropWhile isspace (rev (dropWhile isspace (rev (dropWhile isspace s))))
      = rev (dropWhile isspace (rev (dropWhile isspace s)))"
    by (rule strip_core)
  then show ?thesis
    by (simp only: py_strip_def rev_rev_ident dropWhile_idem)
qed

lemma clean_email_comprehensive_fixed:
  "y \<in> set (clean_email_comprehensive e) \<Longrightarrow> clean_email_comprehensive y = [y]"
  by (auto simp: clean_email_comprehensive_def Let_def py_strip_idem split: if_splits)

lemma clean_email_extract_fixed:
  "y \<in> set (clean_email_extract e) \<Longrightarrow> clean_email_extract y = [y]"
  by (auto simp: clean_email_extract_def Let_def py_strip_idem split: if_splits)

lemma set_normalize_emails_comprehensive:
  "set (normalize_emails_comprehensive raw)
     = (\<Union>e \<in> set raw. set (clean_email_comprehensive e))"
  by (simp add: normalize_emails_comprehensive_def)

lemma set_normalize_emails_extract:
  "set (normalize_emails_extract raw) = (\<Union>e \<in> set raw. set (clean_email_extract e))"
  by (simp add: normalize_emails_extract_def)

lemma set_normalize_emails_comprehensive_spec:
  "set (normalize_emails_comprehensive raw) = spec_normalizeEmails raw"
  by (auto simp: set_normalize_emails_comprehensive clean_email_comprehensive_def
      spec_normalizeEmails_def spec_accept_email_def Let_def split: if_splits)

lemma fixed_union:
  assumes fx: "\<And>p y. y \<in> set (f p) \<Longrightarrow> f y = [y]"
    and zs: "set zs = (\<Union>p \<in> set xs. set (f p))"
  shows "(\<Union>z \<in> set zs. set (f z)) = set zs"
proof
  show "(\<Union>z \<in> set zs. set (f z)) \<subseteq> set zs"
  proof
    fix y assume "y \<in> (\<Union>z \<in> set zs. set (f z))"
    then obtain z where z: "z \<in> set zs" and y: "y \<in> set (f z)" by blast
    from z zs obtain p where "z \<in> set (f p)" by blast
    then have "f z = [z]" by (rule fx)
    with y have "y = z" by simp
    with z show "y \<in> set zs" by simp
  qed
next
  show "set zs \<subseteq> (\<Union>z \<in> set zs. set (f z))"
  proof
    fix z assume z: "z \<in> set zs"
    with zs obtain p where "z \<in> set (f p)" by blast
    then have "f z = [z]" by (rule fx)
    then have "z \<in> set (f z)" by simp
    with z show "z \<in> (\<Union>z \<in> set zs. set (f z))" by blast
  qed
qed

text \<open>
  C9: the result set of each of the four cleaning loops (phones and emails, on the
  comprehensive path and on the purchase path) depends only on the set of the entries,
  not on their order or multiplicity, and cleaning any list of the values of a result
  gives that result again: every output value is a fixed point.
\<close>

theorem normalisers_order_independent_idempotent:
  "(set xs = set ys \<longrightarrow>
      set (normalize_phones_extract xs) = set (normalize_phones_extract ys)
    \<and> set (normalize_phones_comprehensive xs) = set (normalize_phones_comprehensive ys)
    \<and> set (normalize_emails_extract xs) = set (normalize_emails_extract ys)
    \<and> set (normalize_emails_comprehensive xs) = set (normalize_emails_comprehensive ys))
   \<and> (set zs = set (normalize_phones_extract xs)
        \<longrightarrow> set (normalize_phones_extract zs) = set zs)
   \<and> (set zs = set (normalize_phones_comprehensive xs)
        \<longrightarrow> set (normalize_phones_comprehensive zs) = set zs)
   \<and> (set zs = set (normalize_emails_extract xs)
        \<longrightarrow> set (normalize_emails_extract zs) = set zs)
   \<and> (set zs = set (normalize_emails_comprehensive xs)
        \<longrightarrow> set (normalize_emails_comprehensive zs) = set zs)"
proof -
  have ord: "set xs = set ys \<Longrightarrow>
      set (normalize_phones_extract xs) = set (normalize_phones_extract ys)
    \<and> set (normalize_phones_comprehensive xs) = set (normalize_phones_comprehensive ys)
    \<and> set (normalize_emails_extract xs) = set (normalize_emails_extract ys)
    \<and> set (normalize_emails_comprehensive xs) = set (normalize_emails_comprehensive ys)"
    by (simp only: set_normalize_phones_extract set_normalize_phones_comprehensive
        set_normalize_emails_extract set_normalize_emails_comprehensive)
  have p1: "set zs = set (normalize_phones_extract xs)
        \<Longrightarrow> set (normalize_phones_extract zs) = set zs"
    unfolding set_normalize_phones_extract by (rule fixed_union [OF clean_phone_fixed])
  have p2: "set zs = set (normalize_phones_comprehensive xs)
        \<Longrightarrow> set (normalize_phones_comprehensive zs) = set zs"
    unfolding set_normalize_phones_comprehensive by (rule fixed_union [OF clean_phone_fixed])
  have e1: "set zs = set (normalize_emails_extract xs)
        \<Longrightarrow> set (normalize_emails_extract zs) = set zs"
    unfolding set_normalize_emails_extract by (rule fixed_union [OF clean_email_extract_fixed])
  have e2: "set zs = set (normalize_emails_comprehensive xs)
        \<Longrightarrow> set (normalize_emails_comprehensive zs) = set zs"
    unfolding set_normalize_emails_comprehensive
    by (rule fixed_union [OF clean_email_comprehensive_fixed])
  from ord p1 p2 e1 e2 show ?thesis by blast
qed

theorem normalisers_order_independent_idempotent_witness:
  "set (normalize_phones_extract [''15551234567'', ''5551234567''])
     = set (normalize_phones_extract [''5551234567'', ''15551234567'', ''5551234567''])
   \<and> set (normalize_phones_extract [''(555) 123-4567'']) = set [''(555) 123-4567'']
   \<and> set (normalize_phones_comprehensive [''(555) 123-4567'']) = set [''(555) 123-4567'']
   \<and> set (normalize_emails_extract [''a@b.com'']) = set [''a@b.com'']
   \<and> set (normalize_emails_comprehensive [''a@b.com'']) = set [''a@b.com'']"
proof -
  have s1: "set [''15551234567'', ''5551234567'']
      = set [''5551234567'', ''15551234567'', ''5551234567'']" by auto
  have p1: "set [''(555) 123-4567''] = set (normalize_phones_extract [''5551234567''])"
    by code_simp
  have p2: "set [''(555) 123-4567''] = set (normalize_phones_comprehensive [''5551234567''])"
    by code_simp
  have e1: "set [''a@b.com''] = set (normalize_emails_extract ['' a@b.com''])" by code_simp
  have e2: "set [''a@b.com''] = set (normalize_emails_comprehensive ['' a@b.com''])"
    by code_simp
  note a = normalisers_order_independent_idempotent
    [of "[''15551234567'', ''5551234567'']"
        "[''5551234567'', ''15551234567'', ''5551234567'']"]
  note c = normalisers_order_independent_idempotent
    [of "[''5551234567'']" _ "[''(555) 123-4567'']"]
  note d = normalisers_order_independent_idempotent
    [of "['' a@b.com'']" _ "[''a@b.com'']"]
  have 1: "set (normalize_phones_extract [''15551234567'', ''5551234567''])
     = set (normalize_phones_extract [''5551234567'', ''15551234567'', ''5551234567''])"
    using a [THEN conjunct1, rule_format, OF s1] by (rule conjunct1)
  have 3: "set (normalize_phones_extract [''(555) 123-4567'']) = set [''(555) 123-4567'']"
    using c [THEN conjunct2, THEN conjunct1, rule_format, OF p1] .
  have 4: "set (normalize_phones_comprehensive [''(555) 123-4567''])
      = set [''(555) 123-4567'']"
    using c [THEN conjunct2, THEN conjunct2, THEN conjunct1, rule_format, OF p2] .
  have 5: "set (normalize_emails_extract [''a@b.com'']) = set [''a@b.com'']"
    using d [THEN conjunct2, THEN conjunct2, THEN conjunct2, THEN conjunct1, rule_format, OF e1] .
  have 6: "set (normalize_emails_comprehensive [''a@b.com'']) = set [''a@b.com'']"
    using d [THEN conjunct2, THEN conjunct2, THEN conjunct2, THEN conjunct2, rule_format, OF e2] .
  show ?thesis
    by (intro conjI) (rule 1 3 4 5 6)+
qed

section \<open>Email acceptance on the purchase path\<close>

text \<open>
  C8 at the failing input: a purchase response whose email field is the two characters
  "@." gives that value as an email of the owner, although it is no longer than five
  characters; the comprehensive extractor, on the same payload, rejects it, as the
  normaliser of the specification does.
\<close>

theorem short_email_accepted_on_purchase:
  "extract_emails_from_data (repr py0) payload_short_email = [''@.'']
   \<and> fst (get_emails_for_owner py0 srv_purchase (JStr ''P1'') net0) = ([''@.''], 0)
   \<and> find_emails_in_response_comprehensive payload_short_email = []
   \<and> spec_normalizeEmails [''@.''] = {}
   \<and> length ''@.'' = 2"
proof -
  have 1: "extract_emails_from_data (repr py0) payload_short_email = [''@.'']" by code_simp
  have 2: "fst (get_emails_for_owner py0 srv_purchase (JStr ''P1'') net0) = ([''@.''], 0)"
    by code_simp
  have 3: "find_emails_in_response_comprehensive payload_short_email = []" by code_simp
  have "set (normalize_emails_comprehensive [''@.'']) = {}" by code_simp
  then have 4: "spec_normalizeEmails [''@.''] = {}"
    by (simp only: set_normalize_emails_comprehensive_spec)
  have 5: "length ''@.'' = 2" by simp
  show ?thesis
    by (intro conjI) (rule 1 2 3 4 5)+
qed

section \<open>The requests of a contact lookup\<close>

lemma http_sent: "http srv rq s = (r, s1) \<Longrightarrow> sent s1 = sent s @ [rq]"
  by (auto simp: http_def Let_def split: prod.splits)

lemma sent_cached_phone:
  "sent (snd (get_cached_phone_data py srv u s))
     = sent s @ [\<lparr>meth = POST, url = u, purchase = 0, body = None\<rparr>]"
  by (auto simp: get_cached_phone_data_def Let_def dest: http_sent
      split: prod.splits option.splits json.splits)

lemma sent_cached_email:
  "sent (snd (get_cached_email_data py srv u s))
     = sent s @ [\<lparr>meth = POST, url = u, purchase = 0, body = None\<rparr>]"
  by (auto simp: get_cached_email_data_def Let_def dest: http_sent
      split: prod.splits option.splits json.splits)

lemma sent_purchase_phone:
  "sent (snd (purchase_phone_data py srv u s))
     = sent s @ [\<lparr>meth = POST, url = u, purchase = 1, body = None\<rparr>]"
  by (auto simp: purchase_phone_data_def Let_def dest: http_sent
      split: prod.splits option.splits json.splits)

lemma sent_purchase_email:
  "sent (snd (purchase_email_data py srv u s))
     = sent s @ [\<lparr>meth = POST, url = u, purchase = 1, body = None\<rparr>]"
  by (auto simp: purchase_email_data_def Let_def dest: http_sent
      split: prod.splits option.splits json.splits)

lemma phone_alternatives_sent:
  "\<exists>n \<le> length rqs.
     sent (snd (phone_alternatives srv rqs s)) = sent s @ take n rqs
     \<and> (fst (fst (phone_alternatives srv rqs s)) = [] \<longrightarrow> n = length rqs)
     \<and> snd (fst (phone_alternatives srv rqs s)) = 0"
proof (induction rqs arbitrary: s)
  case Nil
  then show ?case by simp
next
  case (Cons rq rqs)
  obtain r s1 where h: "http srv rq s = (r, s1)" by (cases "http srv rq s")
  then have s1: "sent s1 = sent s @ [rq]" by (rule http_sent)
  let ?found = "\<exists>data. ok_json r = Some data
      \<and> find_phone_numbers_in_response_comprehensive data \<noteq> []"
  show ?case
  proof (cases ?found)
    case True
    then obtain data where d: "ok_json r = Some data"
      "find_phone_numbers_in_response_comprehensive data \<noteq> []" by blast
    have "phone_alternatives srv (rq # rqs) s
        = ((find_phone_numbers_in_response_comprehensive data, 0), s1)"
      using h d by (simp add: Let_def)
    then show ?thesis using s1 d by (intro exI [of _ 1]) simp
  next
    case False
    then have eq: "phone_alternatives srv (rq # rqs) s = phone_alternatives srv rqs s1"
      using h by (auto simp: Let_def split: option.splits)
    from Cons.IH [of s1] obtain n where n: "n \<le> length rqs"
      "sent (snd (phone_alternatives srv rqs s1)) = sent s1 @ take n rqs"
      "fst (fst (phone_alternatives srv rqs s1)) = [] \<longrightarrow> n = length rqs"
      "snd (fst (phone_alternatives srv rqs s1)) = 0" by blast
    show ?thesis using n s1 eq by (intro exI [of _ "Suc n"]) simp
  qed
qed

lemma email_alternatives_sent:
  "\<exists>n \<le> length rqs.
     sent (snd (email_alternatives srv rqs s)) = sent s @ take n rqs
     \<and> (fst (fst (email_alternatives srv rqs s)) = [] \<longrightarrow> n = length rqs)
     \<and> snd (fst (email_alternatives srv rqs s)) = 0"
proof (induction rqs arbitrary: s)
  case Nil
  then show ?case by simp
next
  case (Cons rq rqs)
  obtain r s1 where h: "http srv rq s = (r, s1)" by (cases "http srv rq s")
  then have s1: "sent s1 = sent s @ [rq]" by (rule http_sent)
  let ?found = "\<exists>data. ok_json r = Some data
      \<and> find_emails_in_response_comprehensive data \<noteq> []"
  show ?case
  proof (cases ?found)
    case True
    then obtain data where d: "ok_json r = Some data"
      "find_emails_in_response_comprehensive data \<noteq> []" by blast
    have "email_alternatives srv (rq # rqs) s
        = ((find_emails_in_response_comprehensive data, 0), s1)"
      using h d by (simp add: Let_def)
    then show ?thesis using s1 d by (intro exI [of _ 1]) simp
  next
    case False
    then have eq: "email_alternatives srv (rq # rqs) s = email_alternatives srv rqs s1"
      using h by (auto simp: Let_def split: option.splits)
    from Cons.IH [of s1] obtain n where n: "n \<le> length rqs"
      "sent (snd (email_alternatives srv rqs s1)) = sent s1 @ take n rqs"
      "fst (fst (email_alternatives srv rqs s1)) = [] \<longrightarrow> n = length rqs"
      "snd (fst (email_alternatives srv rqs s1)) = 0" by blast
    show ?thesis using n s1 eq by (intro exI [of _ "Suc n"]) simp
  qed
qed

lemma phone_lookup_sent:
  assumes t: "truthy pk"
  shows "\<exists>rest. sent (snd (get_phone_numbers_for_owner py srv pk s))
            = sent s @ \<lparr>meth = POST, url = persons_url py pk @ ''/Phone'', purchase = 0,
                         body = None\<rparr> # rest
          \<and> (fst (fst (get_cached_phone_data py srv (persons_url py pk @ ''/Phone'') s)) \<noteq> []
               \<longrightarrow> rest = [])"
proof -
  let ?u = "persons_url py pk @ ''/Phone''"
  let ?rq0 = "\<lparr>meth = POST, url = ?u, purchase = 0, body = None\<rparr>"
  obtain c s1 where h: "get_cached_phone_data py srv ?u s = (c, s1)"
    by (cases "get_cached_phone_data py srv ?u s")
  have s1: "sent s1 = sent s @ [?rq0]"
    using sent_cached_phone [of py srv ?u s] h by simp
  show ?thesis
  proof (cases "fst c \<noteq> []")
    case True
    then have "get_phone_numbers_for_owner py srv pk s = (c, s1)"
      using t h by (simp add: get_phone_numbers_for_owner_def Let_def)
    then show ?thesis using s1 h by (intro exI [of _ "[]"]) simp
  next
    case False
    obtain alt s2 where a: "get_phone_data_alternative_endpoints py srv pk s1 = (alt, s2)"
      by (cases "get_phone_data_alternative_endpoints py srv pk s1")
    obtain n where n: "sent s2 = sent s1 @ take n (alternative_requests py pk)"
      using phone_alternatives_sent [of "alternative_requests py pk" srv s1] a
      by (auto simp: get_phone_data_alternative_endpoints_def)
    show ?thesis
    proof (cases "fst alt \<noteq> []")
      case True
      then have "get_phone_numbers_for_owner py srv pk s = (alt, s2)"
        using t h a False by (simp add: get_phone_numbers_for_owner_def Let_def)
      then show ?thesis using s1 n h False
        by (intro exI [of _ "take n (alternative_requests py pk)"]) simp
    next
      case nf: False
      have "get_phone_numbers_for_owner py srv pk s = purchase_phone_data py srv ?u s2"
        using t h a False nf by (simp add: get_phone_numbers_for_owner_def Let_def)
      then show ?thesis using s1 n h False sent_purchase_phone [of py srv ?u s2]
        by (intro exI [of _ "take n (alternative_requests py pk)
              @ [\<lparr>meth = POST, url = ?u, purchase = 1, body = None\<rparr>]"]) simp
    qed
  qed
qed

lemma email_lookup_sent:
  assumes t: "truthy pk"
  shows "\<exists>rest. sent (snd (get_emails_for_owner py srv pk s))
            = sent s @ \<lparr>meth = POST, url = persons_url py pk @ ''/Email'', purchase = 0,
                         body = None\<rparr> # rest
          \<and> (fst (fst (get_cached_email_data py srv (persons_url py pk @ ''/Email'') s)) \<noteq> []
               \<longrightarrow> rest = [])"
proof -
  let ?u = "persons_url py pk @ ''/Email''"
  let ?rq0 = "\<lparr>meth = POST, url = ?u, purchase = 0, body = None\<rparr>"
  obtain c s1 where h: "get_cached_email_data py srv ?u s = (c, s1)"
    by (cases "get_cached_email_data py srv ?u s")
  have s1: "sent s1 = sent s @ [?rq0]"
    using sent_cached_email [of py srv ?u s] h by simp
  show ?thesis
  proof (cases "fst c \<noteq> []")
    case True
    then have "get_emails_for_owner py srv pk s = (c, s1)"
      using t h by (simp add: get_emails_for_owner_def Let_def)
    then show ?thesis using s1 h by (intro exI [of _ "[]"]) simp
  next
    case False
    obtain alt s2 where a: "get_email_data_alternative_endpoints py srv pk s1 = (alt, s2)"
      by (cases "get_email_data_alternative_endpoints py srv pk s1")
    obtain n where n: "sent s2 = sent s1 @ take n (alternative_requests py pk)"
      using email_alternatives_sent [of "alternative_requests py pk" srv s1] a
      by (auto simp: get_email_data_alternative_endpoints_def)
    show ?thesis
    proof (cases "fst alt \<noteq> []")
      case True
      then have "get_emails_for_owner py srv pk s = (alt, s2)"
        using t h a False by (simp add: get_emails_for_owner_def Let_def)
      then show ?thesis using s1 n h False
        by (intro exI [of _ "take n (alternative_requests py pk)"]) simp
    next
      case nf: False
      have "get_emails_for_owner py srv pk s = purchase_email_data py srv ?u s2"
        using t h a False nf by (simp add: get_emails_for_owner_def Let_def)
      then show ?thesis using s1 n h False sent_purchase_email [of py srv ?u s2]
        by (intro exI [of _ "take n (alternative_requests py pk)
              @ [\<lparr>meth = POST, url = ?u, purchase = 1, body = None\<rparr>]"]) simp
    qed
  qed
qed

text \<open>
  C1: for every owner with a lookup identifier, the first request of the phone lookup
  and the first request of the email lookup is the \<open>POST\<close> to the person's Phone or
  Email endpoint with \<open>Purchase=0\<close>, so a purchase is never the first attempt; and
  whenever that cached step returns a list that is not empty, it is the only request of
  the lookup: no request in purchase mode is sent.
\<close>

theorem cached_request_first:
  "truthy pk \<longrightarrow>
     (\<exists>rest. sent (snd (get_phone_numbers_for_owner py srv pk s))
            = sent s @ \<lparr>meth = POST, url = persons_url py pk @ ''/Phone'', purchase = 0,
                         body = None\<rparr> # rest
          \<and> (fst (fst (get_cached_phone_data py srv (persons_url py pk @ ''/Phone'') s)) \<noteq> []
               \<longrightarrow> rest = []))
   \<and> (\<exists>rest. sent (snd (get_emails_for_owner py srv pk s))
            = sent s @ \<lparr>meth = POST, url = persons_url py pk @ ''/Email'', purchase = 0,
                         body = None\<rparr> # rest
          \<and> (fst (fst (get_cached_email_data py srv (persons_url py pk @ ''/Email'') s)) \<noteq> []
               \<longrightarrow> rest = []))"
  using phone_lookup_sent [of pk py srv s] email_lookup_sent [of pk py srv s] by blast

theorem cached_request_first_witness:
  "sent (snd (get_phone_numbers_for_owner py0 srv_on_file (JStr ''P1'') net0))
     = [\<lparr>meth = POST, url = ''https://api.propertyradar.com/v1/persons/P1/Phone'',
         purchase = 0, body = None\<rparr>]
   \<and> sent (snd (get_emails_for_owner py0 srv_on_file (JStr ''P1'') net0))
     = [\<lparr>meth = POST, url = ''https://api.propertyradar.com/v1/persons/P1/Email'',
         purchase = 0, body = None\<rparr>]"
proof -
  have t: "truthy (JStr ''P1'')" by simp
  have up: "persons_url py0 (JStr ''P1'') @ ''/Phone''
      = ''https://api.propertyradar.com/v1/persons/P1/Phone''" by code_simp
  have ue: "persons_url py0 (JStr ''P1'') @ ''/Email''
      = ''https://api.propertyradar.com/v1/persons/P1/Email''" by code_simp
  have cp: "fst (fst (get_cached_phone_data py0 srv_on_file
      (persons_url py0 (JStr ''P1'') @ ''/Phone'') net0)) \<noteq> []" by code_simp
  have ce: "fst (fst (get_cached_email_data py0 srv_on_file
      (persons_url py0 (JStr ''P1'') @ ''/Email'') net0)) \<noteq> []" by code_simp
  have s0: "sent net0 = []" by (simp add: net0_def)
  note th = cached_request_first [of "JStr ''P1''" py0 srv_on_file net0, rule_format, OF t]
  from th [THEN conjunct1] obtain rest where
    r: "sent (snd (get_phone_numbers_for_owner py0 srv_on_file (JStr ''P1'') net0))
          = sent net0 @ \<lparr>meth = POST, url = persons_url py0 (JStr ''P1'') @ ''/Phone'',
              purchase = 0, body = None\<rparr> # rest"
    and e: "fst (fst (get_cached_phone_data py0 srv_on_file
      (persons_url py0 (JStr ''P1'') @ ''/Phone'') net0)) \<noteq> [] \<longrightarrow> rest = []"
    by blast
  from e cp have "rest = []" by (rule mp)
  with r have 1: "sent (snd (get_phone_numbers_for_owner py0 srv_on_file (JStr ''P1'') net0))
     = [\<lparr>meth = POST, url = ''https://api.propertyradar.com/v1/persons/P1/Phone'',
         purchase = 0, body = None\<rparr>]"
    by (simp only: up s0 append_Nil)
  from th [THEN conjunct2] obtain rest' where
    r': "sent (snd (get_emails_for_owner py0 srv_on_file (JStr ''P1'') net0))
          = sent net0 @ \<lparr>meth = POST, url = persons_url py0 (JStr ''P1'') @ ''/Email'',
              purchase = 0, body = None\<rparr> # rest'"
    and e': "fst (fst (get_cached_email_data py0 srv_on_file
      (persons_url py0 (JStr ''P1'') @ ''/Email'') net0)) \<noteq> [] \<longrightarrow> rest' = []"
    by blast
  from e' ce have "rest' = []" by (rule mp)
  with r' have 2: "sent (snd (get_emails_for_owner py0 srv_on_file (JStr ''P1'') net0))
     = [\<lparr>meth = POST, url = ''https://api.propertyradar.com/v1/persons/P1/Email'',
         purchase = 0, body = None\<rparr>]"
    by (simp only: ue s0 append_Nil)
  from 1 2 show ?thesis by (rule conjI)
qed

section \<open>The alternative endpoints\<close>

lemma alternative_requests_shape:
  "map meth (alternative_requests py pk) = [GET, GET, GET, GET, GET, GET]
   \<and> map purchase (alternative_requests py pk) = [0, 1, 0, 1, 0, 1]
   \<and> map url (alternative_requests py pk)
       = [persons_url py pk, persons_url py pk,
          persons_url py pk @ ''/contact'', persons_url py pk @ ''/contact'',
          persons_url py pk @ ''/contacts'', persons_url py pk @ ''/contacts'']"
  by (simp add: alternative_requests_def alternative_endpoints_def)

text \<open>
  C4, as stated, fails: the step sends every alternative endpoint a request with
  \<open>Purchase=1\<close> after the one with \<open>Purchase=0\<close>. Against a provider that answers
  nothing, three of its six requests are in purchase mode; against a provider that
  answers only purchase-mode requests, the phones come from such a request and are
  recorded at cost 0.
\<close>

theorem alternative_step_sends_purchase_requests:
  "map purchase (sent (snd (get_phone_data_alternative_endpoints py0 srv_none (JStr ''P1'') net0)))
     = [0, 1, 0, 1, 0, 1]
   \<and> map purchase (sent (snd (get_email_data_alternative_endpoints py0 srv_none (JStr ''P1'') net0)))
     = [0, 1, 0, 1, 0, 1]
   \<and> get_phone_data_alternative_endpoints py0 srv_get_paid (JStr ''P1'') net0
     = (([''(555) 123-4567''], 0),
        \<lparr>world = (),
         sent = [\<lparr>meth = GET, url = ''https://api.propertyradar.com/v1/persons/P1'',
                   purchase = 0, body = None\<rparr>,
                 \<lparr>meth = GET, url = ''https://api.propertyradar.com/v1/persons/P1'',
                   purchase = 1, body = None\<rparr>]\<rparr>)"
  by code_simp

subsection \<open>The first result\<close>

lemma length_exchange: "length (exchange srv rqs s) = length rqs"
  by (induction rqs arbitrary: s) (auto simp: Let_def split: prod.splits)

lemma exchange_Cons:
  "http srv rq s = (r, s1) \<Longrightarrow> exchange srv (rq # rqs) s = (r, s1) # exchange srv rqs s1"
  by (simp add: Let_def)

lemma sent_exchange:
  "k < length rqs \<Longrightarrow> sent (snd (exchange srv rqs s ! k)) = sent s @ take (Suc k) rqs"
proof (induction rqs arbitrary: s k)
  case Nil
  then show ?case by simp
next
  case (Cons rq rqs)
  obtain r s1 where h: "http srv rq s = (r, s1)" by (cases "http srv rq s")
  then have s1: "sent s1 = sent s @ [rq]" by (rule http_sent)
  note ex = exchange_Cons [OF h, of rqs]
  show ?case
  proof (cases k)
    case 0
    then show ?thesis using ex s1 by simp
  next
    case (Suc k')
    with Cons.prems have "k' < length rqs" by simp
    from Cons.IH [OF this, of s1] show ?thesis using ex s1 Suc by simp
  qed
qed

lemma phone_alternatives_step:
  "http srv rq s = (r, s1) \<Longrightarrow>
     phone_alternatives srv (rq # rqs) s
       = (if phones_of_response r \<noteq> [] then ((phones_of_response r, 0), s1)
          else phone_alternatives srv rqs s1)"
  by (simp add: phones_of_response_def Let_def split: option.splits)

lemma email_alternatives_step:
  "http srv rq s = (r, s1) \<Longrightarrow>
     email_alternatives srv (rq # rqs) s
       = (if emails_of_response r \<noteq> [] then ((emails_of_response r, 0), s1)
          else email_alternatives srv rqs s1)"
  by (simp add: emails_of_response_def Let_def split: option.splits)

lemma phone_alternatives_first:
  "k < length rqs
   \<Longrightarrow> \<forall>j < k. phones_of_response (fst (exchange srv rqs s ! j)) = []
   \<Longrightarrow> phones_of_response (fst (exchange srv rqs s ! k)) \<noteq> []
   \<Longrightarrow> phone_alternatives srv rqs s
         = ((phones_of_response (fst (exchange srv rqs s ! k)), 0), snd (exchange srv rqs s ! k))"
proof (induction rqs arbitrary: s k)
  case Nil
  then show ?case by simp
next
  case (Cons rq rqs)
  obtain r s1 where h: "http srv rq s = (r, s1)" by (cases "http srv rq s")
  note ex = exchange_Cons [OF h, of rqs]
  note st = phone_alternatives_step [OF h, of rqs]
  show ?case
  proof (cases k)
    case 0
    with Cons.prems(3) ex have "phones_of_response r \<noteq> []" by simp
    with st ex 0 show ?thesis by simp
  next
    case (Suc k')
    from Cons.prems(2) Suc ex have e0: "phones_of_response r = []" by force
    from Cons.prems(1) Suc have k': "k' < length rqs" by simp
    have all: "\<forall>j < k'. phones_of_response (fst (exchange srv rqs s1 ! j)) = []"
    proof (intro allI impI)
      fix j assume "j < k'"
      then have "Suc j < k" using Suc by simp
      with Cons.prems(2) have "phones_of_response (fst (exchange srv (rq # rqs) s ! Suc j)) = []"
        by blast
      then show "phones_of_response (fst (exchange srv rqs s1 ! j)) = []" using ex by simp
    qed
    from Cons.prems(3) Suc ex
    have ne: "phones_of_response (fst (exchange srv rqs s1 ! k')) \<noteq> []" by simp
    from Cons.IH [OF k' all ne] st e0 ex Suc show ?thesis by simp
  qed
qed

lemma phone_alternatives_none:
  "\<forall>j < length rqs. phones_of_response (fst (exchange srv rqs s ! j)) = []
   \<Longrightarrow> phone_alternatives srv rqs s
         = (([], 0), (if rqs = [] then s else snd (last (exchange srv rqs s))))"
proof (induction rqs arbitrary: s)
  case Nil
  then show ?case by simp
next
  case (Cons rq rqs)
  obtain r s1 where h: "http srv rq s = (r, s1)" by (cases "http srv rq s")
  note ex = exchange_Cons [OF h, of rqs]
  note st = phone_alternatives_step [OF h, of rqs]
  from Cons.prems ex have e0: "phones_of_response r = []" by force
  have all: "\<forall>j < length rqs. phones_of_response (fst (exchange srv rqs s1 ! j)) = []"
  proof (intro allI impI)
    fix j assume "j < length rqs"
    then have "Suc j < length (rq # rqs)" by simp
    with Cons.prems have "phones_of_response (fst (exchange srv (rq # rqs) s ! Suc j)) = []"
      by blast
    then show "phones_of_response (fst (exchange srv rqs s1 ! j)) = []" using ex by simp
  qed
  have ne: "(exchange srv rqs s1 = []) = (rqs = [])"
    using length_exchange [of srv rqs s1] by auto
  from Cons.IH [OF all] st e0 ex ne show ?case by simp
qed

lemma email_alternatives_first:
  "k < length rqs
   \<Longrightarrow> \<forall>j < k. emails_of_response (fst (exchange srv rqs s ! j)) = []
   \<Longrightarrow> emails_of_response (fst (exchange srv rqs s ! k)) \<noteq> []
   \<Longrightarrow> email_alternatives srv rqs s
         = ((emails_of_response (fst (exchange srv rqs s ! k)), 0), snd (exchange srv rqs s ! k))"
proof (induction rqs arbitrary: s k)
  case Nil
  then show ?case by simp
next
  case (Cons rq rqs)
  obtain r s1 where h: "http srv rq s = (r, s1)" by (cases "http srv rq s")
  note ex = exchange_Cons [OF h, of rqs]
  note st = email_alternatives_step [OF h, of rqs]
  show ?case
  proof (cases k)
    case 0
    with Cons.prems(3) ex have "emails_of_response r \<noteq> []" by simp
    with st ex 0 show ?thesis by simp
  next
    case (Suc k')
    from Cons.prems(2) Suc ex have e0: "emails_of_response r = []" by force
    from Cons.prems(1) Suc have k': "k' < length rqs" by simp
    have all: "\<forall>j < k'. emails_of_response (fst (exchange srv rqs s1 ! j)) = []"
    proof (intro allI impI)
      fix j assume "j < k'"
      then have "Suc j < k" using Suc by simp
      with Cons.prems(2) have "emails_of_response (fst (exchange srv (rq # rqs) s ! Suc j)) = []"
        by blast
      then show "emails_of_response (fst (exchange srv rqs s1 ! j)) = []" using ex by simp
    qed
    from Cons.prems(3) Suc ex
    have ne: "emails_of_response (fst (exchange srv rqs s1 ! k')) \<noteq> []" by simp
    from Cons.IH [OF k' all ne] st e0 ex Suc show ?thesis by simp
  qed
qed

lemma email_alternatives_none:
  "\<forall>j < length rqs. emails_of_response (fst (exchange srv rqs s ! j)) = []
   \<Longrightarrow> email_alternatives srv rqs s
         = (([], 0), (if rqs = [] then s else snd (last (exchange srv rqs s))))"
proof (induction rqs arbitrary: s)
  case Nil
  then show ?case by simp
next
  case (Cons rq rqs)
  obtain r s1 where h: "http srv rq s = (r, s1)" by (cases "http srv rq s")
  note ex = exchange_Cons [OF h, of rqs]
  note st = email_alternatives_step [OF h, of rqs]
  from Cons.prems ex have e0: "emails_of_response r = []" by force
  have all: "\<forall>j < length rqs. emails_of_response (fst (exchange srv rqs s1 ! j)) = []"
  proof (intro allI impI)
    fix j assume "j < length rqs"
    then have "Suc j < length (rq # rqs)" by simp
    with Cons.prems have "emails_of_response (fst (exchange srv (rq # rqs) s ! Suc j)) = []"
      by blast
    then show "emails_of_response (fst (exchange srv rqs s1 ! j)) = []" using ex by simp
  qed
  have ne: "(exchange srv rqs s1 = []) = (rqs = [])"
    using length_exchange [of srv rqs s1] by auto
  from Cons.IH [OF all] st e0 ex ne show ?case by simp
qed

lemma alternative_requests_length: "length (alternative_requests py pk) = 6"
  by (simp add: alternative_requests_def alternative_endpoints_def)

lemma phone_step_first_result:
  "(k < 6
      \<and> (\<forall>j < k. phones_of_response
             (fst (exchange srv (alternative_requests py pk) s ! j)) = [])
      \<and> phones_of_response (fst (exchange srv (alternative_requests py pk) s ! k)) \<noteq> []
    \<longrightarrow> fst (fst (get_phone_data_alternative_endpoints py srv pk s))
          = phones_of_response (fst (exchange srv (alternative_requests py pk) s ! k))
        \<and> snd (get_phone_data_alternative_endpoints py srv pk s)
          = snd (exchange srv (alternative_requests py pk) s ! k)
        \<and> sent (snd (get_phone_data_alternative_endpoints py srv pk s))
          = sent s @ take (Suc k) (alternative_requests py pk)
        \<and> (purchase (alternative_requests py pk ! k) = 0
             \<longrightarrow> snd (fst (get_phone_data_alternative_endpoints py srv pk s)) = 0))
   \<and> ((\<forall>j < 6. phones_of_response
             (fst (exchange srv (alternative_requests py pk) s ! j)) = [])
    \<longrightarrow> get_phone_data_alternative_endpoints py srv pk s
          = (([], 0), snd (exchange srv (alternative_requests py pk) s ! 5))
        \<and> sent (snd (get_phone_data_alternative_endpoints py srv pk s))
          = sent s @ alternative_requests py pk)"
proof -
  let ?rqs = "alternative_requests py pk"
  let ?ex = "exchange srv ?rqs s"
  note len = alternative_requests_length [of py pk]
  have lex: "length ?ex = 6" by (simp add: length_exchange len)
  have ne: "?rqs \<noteq> []" using len by auto
  have exne: "?ex \<noteq> []" using lex by auto
  have lst: "last ?ex = ?ex ! 5" using last_conv_nth [OF exne] lex by simp
  have s5: "sent (snd (?ex ! 5)) = sent s @ ?rqs"
    using sent_exchange [of 5 ?rqs srv s] len by simp
  have a: "k < 6 \<Longrightarrow> \<forall>j < k. phones_of_response (fst (?ex ! j)) = []
      \<Longrightarrow> phones_of_response (fst (?ex ! k)) \<noteq> []
      \<Longrightarrow> phone_alternatives srv ?rqs s
            = ((phones_of_response (fst (?ex ! k)), 0), snd (?ex ! k))"
    using phone_alternatives_first [of k ?rqs srv s] len by simp
  have b: "\<forall>j < 6. phones_of_response (fst (?ex ! j)) = []
      \<Longrightarrow> phone_alternatives srv ?rqs s = (([], 0), snd (?ex ! 5))"
    using phone_alternatives_none [of ?rqs srv s] len ne lst by simp
  have c: "k < 6 \<Longrightarrow> sent (snd (?ex ! k)) = sent s @ take (Suc k) ?rqs"
    using sent_exchange [of k ?rqs srv s] len by simp
  show ?thesis
    unfolding get_phone_data_alternative_endpoints_def
    using a b c s5 by auto
qed

lemma email_step_first_result:
  "(k < 6
      \<and> (\<forall>j < k. emails_of_response
             (fst (exchange srv (alternative_requests py pk) s ! j)) = [])
      \<and> emails_of_response (fst (exchange srv (alternative_requests py pk) s ! k)) \<noteq> []
    \<longrightarrow> fst (fst (get_email_data_alternative_endpoints py srv pk s))
          = emails_of_response (fst (exchange srv (alternative_requests py pk) s ! k))
        \<and> snd (get_email_data_alternative_endpoints py srv pk s)
          = snd (exchange srv (alternative_requests py pk) s ! k)
        \<and> sent (snd (get_email_data_alternative_endpoints py srv pk s))
          = sent s @ take (Suc k) (alternative_requests py pk)
        \<and> (purchase (alternative_requests py pk ! k) = 0
             \<longrightarrow> snd (fst (get_email_data_alternative_endpoints py srv pk s)) = 0))
   \<and> ((\<forall>j < 6. emails_of_response
             (fst (exchange srv (alternative_requests py pk) s ! j)) = [])
    \<longrightarrow> get_email_data_alternative_endpoints py srv pk s
          = (([], 0), snd (exchange srv (alternative_requests py pk) s ! 5))
        \<and> sent (snd (get_email_data_alternative_endpoints py srv pk s))
          = sent s @ alternative_requests py pk)"
proof -
  let ?rqs = "alternative_requests py pk"
  let ?ex = "exchange srv ?rqs s"
  note len = alternative_requests_length [of py pk]
  have lex: "length ?ex = 6" by (simp add: length_exchange len)
  have ne: "?rqs \<noteq> []" using len by auto
  have exne: "?ex \<noteq> []" using lex by auto
  have lst: "last ?ex = ?ex ! 5" using last_conv_nth [OF exne] lex by simp
  have s5: "sent (snd (?ex ! 5)) = sent s @ ?rqs"
    using sent_exchange [of 5 ?rqs srv s] len by simp
  have a: "k < 6 \<Longrightarrow> \<forall>j < k. emails_of_response (fst (?ex ! j)) = []
      \<Longrightarrow> emails_of_response (fst (?ex ! k)) \<noteq> []
      \<Longrightarrow> email_alternatives srv ?rqs s
            = ((emails_of_response (fst (?ex ! k)), 0), snd (?ex ! k))"
    using email_alternatives_first [of k ?rqs srv s] len by simp
  have b: "\<forall>j < 6. emails_of_response (fst (?ex ! j)) = []
      \<Longrightarrow> email_alternatives srv ?rqs s = (([], 0), snd (?ex ! 5))"
    using email_alternatives_none [of ?rqs srv s] len ne lst by simp
  have c: "k < 6 \<Longrightarrow> sent (snd (?ex ! k)) = sent s @ take (Suc k) ?rqs"
    using sent_exchange [of k ?rqs srv s] len by simp
  show ?thesis
    unfolding get_email_data_alternative_endpoints_def
    using a b c s5 by auto
qed

text \<open>
  C4, amended: the requests of the alternative-endpoints step, for phones and for emails,
  are \<open>GET\<close> requests to the person-details, /contact and /contacts endpoints, each
  endpoint first with \<open>Purchase=0\<close> and then with \<open>Purchase=1\<close>. The step stops at
  the first request whose response yields a contact list that is not empty: it returns
  that list, in the state that request left, and has sent that request and the ones
  before it, nothing more. A list accepted from a request with \<open>Purchase=0\<close> is
  recorded at cost 0. When no response yields anything, all six requests have been sent
  and the step returns the empty list at cost 0.
\<close>

theorem alternative_step_first_result:
  "((k < 6
      \<and> (\<forall>j < k. phones_of_response
             (fst (exchange srv (alternative_requests py pk) s ! j)) = [])
      \<and> phones_of_response (fst (exchange srv (alternative_requests py pk) s ! k)) \<noteq> []
    \<longrightarrow> fst (fst (get_phone_data_alternative_endpoints py srv pk s))
          = phones_of_response (fst (exchange srv (alternative_requests py pk) s ! k))
        \<and> snd (get_phone_data_alternative_endpoints py srv pk s)
          = snd (exchange srv (alternative_requests py pk) s ! k)
        \<and> sent (snd (get_phone_data_alternative_endpoints py srv pk s))
          = sent s @ take (Suc k) (alternative_requests py pk)
        \<and> (purchase (alternative_requests py pk ! k) = 0
             \<longrightarrow> snd (fst (get_phone_data_alternative_endpoints py srv pk s)) = 0))
   \<and> ((\<forall>j < 6. phones_of_response
             (fst (exchange srv (alternative_requests py pk) s ! j)) = [])
    \<longrightarrow> get_phone_data_alternative_endpoints py srv pk s
          = (([], 0), snd (exchange srv (alternative_requests py pk) s ! 5))
        \<and> sent (snd (get_phone_data_alternative_endpoints py srv pk s))
          = sent s @ alternative_requests py pk))
   \<and> ((k < 6
      \<and> (\<forall>j < k. emails_of_response
             (fst (exchange srv (alternative_requests py pk) s ! j)) = [])
      \<and> emails_of_response (fst (exchange srv (alternative_requests py pk) s ! k)) \<noteq> []
    \<longrightarrow> fst (fst (get_email_data_alternative_endpoints py srv pk s))
          = emails_of_response (fst (exchange srv (alternative_requests py pk) s ! k))
        \<and> snd (get_email_data_alternative_endpoints py srv pk s)
          = snd (exchange srv (alternative_requests py pk) s ! k)
        \<and> sent (snd (get_email_data_alternative_endpoints py srv pk s))
          = sent s @ take (Suc k) (alternative_requests py pk)
        \<and> (purchase (alternative_requests py pk ! k) = 0
             \<longrightarrow> snd (fst (get_email_data_alternative_endpoints py srv pk s)) = 0))
   \<and> ((\<forall>j < 6. emails_of_response
             (fst (exchange srv (alternative_requests py pk) s ! j)) = [])
    \<longrightarrow> get_email_data_alternative_endpoints py srv pk s
          = (([], 0), snd (exchange srv (alternative_requests py pk) s ! 5))
        \<and> sent (snd (get_email_data_alternative_endpoints py srv pk s))
          = sent s @ alternative_requests py pk))
   \<and> map meth (alternative_requests py pk) = [GET, GET, GET, GET, GET, GET]
   \<and> map purchase (alternative_requests py pk) = [0, 1, 0, 1, 0, 1]
   \<and> map url (alternative_requests py pk)
       = [persons_url py pk, persons_url py pk,
          persons_url py pk @ ''/contact'', persons_url py pk @ ''/contact'',
          persons_url py pk @ ''/contacts'', persons_url py pk @ ''/contacts'']"
  by (intro conjI phone_step_first_result [THEN conjunct1] phone_step_first_result [THEN conjunct2]
      email_step_first_result [THEN conjunct1] email_step_first_result [THEN conjunct2]
      alternative_requests_shape [THEN conjunct1]
      alternative_requests_shape [THEN conjunct2, THEN conjunct1]
      alternative_requests_shape [THEN conjunct2, THEN conjunct2])

theorem alternative_step_first_result_witness:
  "fst (fst (get_phone_data_alternative_endpoints py0 srv_get_paid (JStr ''P1'') net0))
     = [''(555) 123-4567'']
   \<and> sent (snd (get_phone_data_alternative_endpoints py0 srv_get_paid (JStr ''P1'') net0))
     = sent net0 @ take (Suc 1) (alternative_requests py0 (JStr ''P1''))
   \<and> snd (fst (get_phone_data_alternative_endpoints py0 srv_get (JStr ''P1'') net0)) = 0
   \<and> fst (fst (get_email_data_alternative_endpoints py0 srv_get (JStr ''P1'') net0))
     = [''a@b.com'']
   \<and> sent (snd (get_phone_data_alternative_endpoints py0 srv_none (JStr ''P1'') net0))
     = sent net0 @ alternative_requests py0 (JStr ''P1'')"
proof -
  let ?rqs = "alternative_requests py0 (JStr ''P1'')"
  have a0: "phones_of_response (fst (exchange srv_get_paid ?rqs net0 ! 0)) = []"
    by code_simp
  have a1: "phones_of_response (fst (exchange srv_get_paid ?rqs net0 ! 1))
      = [''(555) 123-4567'']" by code_simp
  have a: "(1::nat) < 6
      \<and> (\<forall>j < 1. phones_of_response (fst (exchange srv_get_paid ?rqs net0 ! j)) = [])
      \<and> phones_of_response (fst (exchange srv_get_paid ?rqs net0 ! 1)) \<noteq> []"
    using a0 a1 by simp
  note t1 = alternative_step_first_result
    [where k = 1 and srv = srv_get_paid and py = py0 and pk = "JStr ''P1''" and s = net0,
     THEN conjunct1, THEN conjunct1, rule_format, OF a]
  have 1: "fst (fst (get_phone_data_alternative_endpoints py0 srv_get_paid (JStr ''P1'') net0))
     = [''(555) 123-4567'']"
    using t1 [THEN conjunct1] a1 by simp
  have 2: "sent (snd (get_phone_data_alternative_endpoints py0 srv_get_paid (JStr ''P1'') net0))
     = sent net0 @ take (Suc 1) ?rqs"
    using t1 [THEN conjunct2, THEN conjunct2, THEN conjunct1] .
  have b0: "phones_of_response (fst (exchange srv_get ?rqs net0 ! 0)) \<noteq> []" by code_simp
  have b: "(0::nat) < 6
      \<and> (\<forall>j < 0. phones_of_response (fst (exchange srv_get ?rqs net0 ! j)) = [])
      \<and> phones_of_response (fst (exchange srv_get ?rqs net0 ! 0)) \<noteq> []"
    using b0 by simp
  have p0: "purchase (?rqs ! 0) = 0" by code_simp
  note t2 = alternative_step_first_result
    [where k = 0 and srv = srv_get and py = py0 and pk = "JStr ''P1''" and s = net0,
     THEN conjunct1, THEN conjunct1, rule_format, OF b]
  have 3: "snd (fst (get_phone_data_alternative_endpoints py0 srv_get (JStr ''P1'') net0)) = 0"
    using t2 [THEN conjunct2, THEN conjunct2, THEN conjunct2, rule_format, OF p0] .
  have c0: "emails_of_response (fst (exchange srv_get ?rqs net0 ! 0)) = [''a@b.com'']"
    by code_simp
  have c: "(0::nat) < 6
      \<and> (\<forall>j < 0. emails_of_response (fst (exchange srv_get ?rqs net0 ! j)) = [])
      \<and> emails_of_response (fst (exchange srv_get ?rqs net0 ! 0)) \<noteq> []"
    using c0 by simp
  note t3 = alternative_step_first_result
    [where k = 0 and srv = srv_get and py = py0 and pk = "JStr ''P1''" and s = net0,
     THEN conjunct2, THEN conjunct1, THEN conjunct1, rule_format, OF c]
  have 4: "fst (fst (get_email_data_alternative_endpoints py0 srv_get (JStr ''P1'') net0))
     = [''a@b.com'']"
    using t3 [THEN conjunct1] c0 by simp
  have m: "map (\<lambda>x. phones_of_response (fst x)) (exchange srv_none ?rqs net0)
      = replicate 6 []" by code_simp
  have lx: "length (exchange srv_none ?rqs net0) = 6"
    by (simp add: length_exchange alternative_requests_length)
  have d: "\<forall>j < 6. phones_of_response (fst (exchange srv_none ?rqs net0 ! j)) = []"
  proof (intro allI impI)
    fix j :: nat assume j: "j < 6"
    then have "phones_of_response (fst (exchange srv_none ?rqs net0 ! j))
        = map (\<lambda>x. phones_of_response (fst x)) (exchange srv_none ?rqs net0) ! j"
      using lx by simp
    also have "\<dots> = replicate 6 [] ! j" by (simp only: m)
    also have "\<dots> = []" using j by simp
    finally show "phones_of_response (fst (exchange srv_none ?rqs net0 ! j)) = []" .
  qed
  note t4 = alternative_step_first_result
    [where k = 0 and srv = srv_none and py = py0 and pk = "JStr ''P1''" and s = net0,
     THEN conjunct1, THEN conjunct2, THEN mp, OF d]
  have 5: "sent (snd (get_phone_data_alternative_endpoints py0 srv_none (JStr ''P1'') net0))
     = sent net0 @ ?rqs"
    using t4 [THEN conjunct2] .
  show ?thesis
    by (intro conjI) (rule 1 2 3 4 5)+
qed

section \<open>An address without a property match\<close>

lemma search_sent:
  "sent (snd (search_property_with_propertyradar srv a use_paid s))
     = sent s @ (case parse_address a of
                   None \<Rightarrow> []
                 | Some c \<Rightarrow>
                     [\<lparr>meth = POST, url = ''https://api.propertyradar.com/v1/properties'',
                       purchase = (if use_paid then 1 else 0),
                       body = Some (request_data c)\<rparr>])"
  by (auto simp: search_property_with_propertyradar_def Let_def dest: http_sent
      split: prod.splits option.splits json.splits)

text \<open>
  C3, as stated, fails in the status alone: the record of an address whose property
  search returns no match carries the text "No property data", not
  "property not found".
\<close>

theorem no_match_status_label:
  "fst (process_item py0 srv_none True
      \<lparr>item_name = ''12 Main St, Springfield, IL 62704'', column_values = []\<rparr> net0)
     = Inr \<lparr>address = ''12 Main St, Springfield, IL 62704'', owners = [], phones = [],
            emails = [], status = ''No property data''\<rparr>
   \<and> ''No property data'' \<noteq> ''property not found''"
  by code_simp

text \<open>
  C3, amended: for every item with an address whose property search returns no match, the
  run appends exactly one record, with that address, the status "No property data" and
  empty owners, phones and emails, and goes on to the next item in the state the search
  left: the requests for that address are those of the search, at most the one
  \<open>POST\<close> to the properties endpoint, and no owner or contact request is sent.
\<close>

theorem no_match_record:
  "extract_address it = Some a
     \<and> \<not> truthy (fst (search_property_with_propertyradar srv a use_paid s))
   \<longrightarrow> process_item py srv use_paid it s
        = (Inr \<lparr>address = a, owners = [], phones = [], emails = [],
                status = ''No property data''\<rparr>,
           snd (search_property_with_propertyradar srv a use_paid s))
     \<and> process_items py srv use_paid (it # its) results s
        = process_items py srv use_paid its
            (results @ [\<lparr>address = a, owners = [], phones = [], emails = [],
                          status = ''No property data''\<rparr>])
            (snd (search_property_with_propertyradar srv a use_paid s))
     \<and> sent (snd (search_property_with_propertyradar srv a use_paid s))
        = sent s @ (case parse_address a of
                      None \<Rightarrow> []
                    | Some c \<Rightarrow>
                        [\<lparr>meth = POST, url = ''https://api.propertyradar.com/v1/properties'',
                          purchase = (if use_paid then 1 else 0),
                          body = Some (request_data c)\<rparr>])"
proof (intro impI, elim conjE)
  assume a: "extract_address it = Some a"
    and n: "\<not> truthy (fst (search_property_with_propertyradar srv a use_paid s))"
  have 1: "process_item py srv use_paid it s
        = (Inr \<lparr>address = a, owners = [], phones = [], emails = [],
                status = ''No property data''\<rparr>,
           snd (search_property_with_propertyradar srv a use_paid s))"
  proof -
    obtain pr s1 where h: "search_property_with_propertyradar srv a use_paid s = (pr, s1)"
      by (cases "search_property_with_propertyradar srv a use_paid s")
    with n have "\<not> truthy pr" by simp
    with a h show ?thesis by (simp add: process_item_def Let_def)
  qed
  have 2: "process_items py srv use_paid (it # its) results s
        = process_items py srv use_paid its
            (results @ [\<lparr>address = a, owners = [], phones = [], emails = [],
                          status = ''No property data''\<rparr>])
            (snd (search_property_with_propertyradar srv a use_paid s))"
    by (simp add: 1)
  from 1 2 search_sent [of srv a use_paid s]
  show "process_item py srv use_paid it s
        = (Inr \<lparr>address = a, owners = [], phones = [], emails = [],
                status = ''No property data''\<rparr>,
           snd (search_property_with_propertyradar srv a use_paid s))
     \<and> process_items py srv use_paid (it # its) results s
        = process_items py srv use_paid its
            (results @ [\<lparr>address = a, owners = [], phones = [], emails = [],
                          status = ''No property data''\<rparr>])
            (snd (search_property_with_propertyradar srv a use_paid s))
     \<and> sent (snd (search_property_with_propertyradar srv a use_paid s))
        = sent s @ (case parse_address a of
                      None \<Rightarrow> []
                    | Some c \<Rightarrow>
                        [\<lparr>meth = POST, url = ''https://api.propertyradar.com/v1/properties'',
                          purchase = (if use_paid then 1 else 0),
                          body = Some (request_data c)\<rparr>])"
    by (intro conjI)
qed

theorem no_match_record_witness:
  "process_items py0 srv_none True
      [\<lparr>item_name = ''12 Main St, Springfield, IL 62704'', column_values = []\<rparr>] [] net0
     = (Inr [\<lparr>address = ''12 Main St, Springfield, IL 62704'', owners = [], phones = [],
              emails = [], status = ''No property data''\<rparr>],
        snd (search_property_with_propertyradar srv_none
               ''12 Main St, Springfield, IL 62704'' True net0))
   \<and> length (sent (snd (search_property_with_propertyradar srv_none
               ''12 Main St, Springfield, IL 62704'' True net0))) = 1"
proof -
  let ?it = "\<lparr>item_name = ''12 Main St, Springfield, IL 62704'', column_values = []\<rparr>"
  let ?a = "''12 Main St, Springfield, IL 62704''"
  have a: "extract_address ?it = Some ?a" by code_simp
  have n: "\<not> truthy (fst (search_property_with_propertyradar srv_none ?a True net0))"
    by code_simp
  have l: "length (sent (snd (search_property_with_propertyradar srv_none ?a True net0))) = 1"
    by code_simp
  note th = no_match_record [of ?it ?a srv_none True net0 py0 "[]" "[]", rule_format,
      OF conjI [OF a n]]
  from th [THEN conjunct2, THEN conjunct1]
  have p: "process_items py0 srv_none True [?it] [] net0
     = (Inr [\<lparr>address = ?a, owners = [], phones = [],
              emails = [], status = ''No property data''\<rparr>],
        snd (search_property_with_propertyradar srv_none ?a True net0))"
    by simp
  from p l show ?thesis by (rule conjI)
qed

section \<open>Duplicates on the comprehensive path\<close>

text \<open>
  C7 at the failing input: \<open>find_phone_numbers_in_response_comprehensive\<close> removes
  duplicates among the raw candidates, before it formats them. A payload that holds one
  number in two spellings, as the three entries of the example of the specification do,
  gives the formatted number twice, and the cached step hands that list to the owner;
  \<open>extract_phones_from_data\<close>, which removes duplicates after formatting, gives it
  once.
\<close>

theorem comprehensive_phones_duplicated:
  "find_phone_numbers_in_response_comprehensive payload_two_spellings
     = [''(555) 123-4567'', ''(555) 123-4567'']
   \<and> fst (get_phone_numbers_for_owner py0 srv_two_spellings (JStr ''P1'') net0)
     = ([''(555) 123-4567'', ''(555) 123-4567''], 0)
   \<and> normalize_phones_comprehensive [''5551234567'', ''15551234567'', ''5551234567'']
     = [''(555) 123-4567'', ''(555) 123-4567'']
   \<and> extract_phones_from_data (repr py0) payload_two_spellings = [''(555) 123-4567'']"
proof -
  have 1: "find_phone_numbers_in_response_comprehensive payload_two_spellings
     = [''(555) 123-4567'', ''(555) 123-4567'']" by code_simp
  have 2: "fst (get_phone_numbers_for_owner py0 srv_two_spellings (JStr ''P1'') net0)
     = ([''(555) 123-4567'', ''(555) 123-4567''], 0)" by code_simp
  have 3: "normalize_phones_comprehensive [''5551234567'', ''15551234567'', ''5551234567'']
     = [''(555) 123-4567'', ''(555) 123-4567'']" by code_simp
  have 4: "extract_phones_from_data (repr py0) payload_two_spellings = [''(555) 123-4567'']"
    by code_simp
  show ?thesis
    by (intro conjI) (rule 1 2 3 4)+
qed

end
